theory Spec2Isabelle
  imports Complex_Main "HOL-Library.AList"
begin

section \<open>LADCP cast processing\<close>

text \<open>
  The script \<^verbatim>\<open>LADCP/LADCP_reg.py\<close> loads LADCP casts from MAT files, keeps the
  valid ones, interpolates the velocity components of every kept cast onto one depth
  grid and draws velocity vectors on a bathymetry map. Each function of the script is embedded below as a HOL function
  of the same name. Python exceptions are values of \<open>py_exception\<close>; a function that
  can raise returns \<open>py_exception + 'a\<close>.
\<close>

subsection \<open>Numbers\<close>

text \<open>
  A float64 of the script is either the missing-value marker NaN or a finite number.
  Finite numbers are modelled as reals, so rounding and infinities are not part of
  the model; NaN and its propagation through arithmetic and comparisons are.
  Pressures are taken to be finite numbers.
\<close>

datatype fl = NaN | Fin real

fun isnan :: "fl \<Rightarrow> bool" where
  "isnan NaN = True"
| "isnan (Fin x) = False"

fun fl_add :: "fl \<Rightarrow> fl \<Rightarrow> fl" where
  "fl_add (Fin a) (Fin b) = Fin (a + b)"
| "fl_add a b = NaN"

fun fl_sub :: "fl \<Rightarrow> fl \<Rightarrow> fl" where
  "fl_sub (Fin a) (Fin b) = Fin (a - b)"
| "fl_sub a b = NaN"

fun fl_mul :: "fl \<Rightarrow> fl \<Rightarrow> fl" where
  "fl_mul (Fin a) (Fin b) = Fin (a * b)"
| "fl_mul a b = NaN"

text \<open>Division is only used by \<open>np.interp\<close> with a non-zero finite divisor.\<close>

fun fl_div :: "fl \<Rightarrow> real \<Rightarrow> fl" where
  "fl_div (Fin a) d = Fin (a / d)"
| "fl_div NaN d = NaN"

text \<open>Comparisons with NaN are false, equality included.\<close>

fun fl_less :: "fl \<Rightarrow> fl \<Rightarrow> bool" where
  "fl_less (Fin a) (Fin b) = (a < b)"
| "fl_less a b = False"

fun fl_eq :: "fl \<Rightarrow> fl \<Rightarrow> bool" where
  "fl_eq (Fin a) (Fin b) = (a = b)"
| "fl_eq a b = False"

subsection \<open>Exceptions\<close>

text \<open>
  The exceptions the script can meet. A \<open>ValueError\<close> carries the place that raises
  it. \<open>PermissionError\<close> and \<open>NotImplementedError\<close> stand for what
  \<open>scipy.io.loadmat\<close> raises on an unreadable file and on a MAT file of version 7.3.
\<close>

datatype value_error_site =
    DataFrame_lengths
  | Arange_length
  | Interp_empty
  | Interp_lengths
  | Broadcast_shape
  | Min_empty
  | Max_empty
  | Axis_limits

datatype py_exception =
    FileNotFoundError
  | KeyError
  | PermissionError
  | NotImplementedError
  | IndexError
  | UnboundLocalError
  | ValueError value_error_site

subsection \<open>numpy helpers\<close>

text \<open>
  \<open>np.arange(start, stop, step)\<close> for a positive step: \<open>ceil((stop - start) / step)\<close>
  values \<open>start + i * step\<close>. A NaN bound has no length and raises.
\<close>

definition arange :: "real \<Rightarrow> real \<Rightarrow> real \<Rightarrow> real list" where
  "arange start stop step =
     map (\<lambda>i. start + real i * step) [0..<nat \<lceil>(stop - start) / step\<rceil>]"

fun arange_fl :: "real \<Rightarrow> fl \<Rightarrow> real \<Rightarrow> py_exception + real list" where
  "arange_fl start NaN step = Inl (ValueError Arange_length)"
| "arange_fl start (Fin stop) step = Inr (arange start stop step)"

text \<open>Line 67: \<open>full_depth_range = np.arange(2, 2576, 2)\<close>.\<close>

definition full_depth_range :: "real list" where
  "full_depth_range = arange 2 2576 2"

subsection \<open>Loader: \<open>get_adcp_data\<close>\<close>

text \<open>
  The record \<open>dr\<close> of a MAT file, with the fields the script reads. A MAT file is a
  dictionary of variables; the file system maps a path to what \<open>loadmat\<close> does on
  it: raise, or return the dictionary.
\<close>

record dr =
  dr_lon :: fl
  dr_lat :: fl
  dr_p :: "real list"
  dr_u :: "fl list"
  dr_v :: "fl list"

type_synonym mat_data = "string \<rightharpoonup> dr"
type_synonym filesystem = "string \<Rightarrow> py_exception + mat_data"

text \<open>The format \<open>{cast:03d}\<close>: decimal digits, padded with zeros to width 3.\<close>

definition digit_char :: "nat \<Rightarrow> char" where
  "digit_char d = char_of (48 + d)"

fun digits :: "nat \<Rightarrow> string" where
  "digits n = (if n < 10 then [digit_char n] else digits (n div 10) @ [digit_char (n mod 10)])"

definition fmt_03d :: "int \<Rightarrow> string" where
  "fmt_03d n =
     (if n < 0
      then CHR ''-'' # replicate (2 - length (digits (nat (- n)))) CHR ''0'' @ digits (nat (- n))
      else replicate (3 - length (digits (nat n))) CHR ''0'' @ digits (nat n))"

definition get_adcp_data :: "filesystem \<Rightarrow> int \<Rightarrow> py_exception + dr" where
  "get_adcp_data fs cast =
     (let file = fmt_03d cast @ ''.mat'';
          pathF = ''./processed/'' @ file
      in case fs pathF of
           Inl e \<Rightarrow> Inl e
         | Inr mat_data \<Rightarrow>
             (case mat_data ''dr'' of None \<Rightarrow> Inl KeyError | Some d \<Rightarrow> Inr d))"

subsection \<open>Collector: \<open>get_valid_casts\<close>\<close>

text \<open>
  A Python dictionary is an association list in insertion order; \<open>AList.update\<close>
  is the assignment \<open>d[k] = v\<close>. The loop over \<open>range(1, last_cast + 1)\<close> is
  \<open>scan_casts\<close> over \<open>[1..last_cast]\<close>; its \<open>except\<close> clause catches
  \<open>FileNotFoundError\<close> and \<open>KeyError\<close> and prints an empty line, which the
  model leaves out.
\<close>

definition cast_label :: "int \<Rightarrow> string" where
  "cast_label cast = ''Cast'' @ fmt_03d cast"




subsection \<open>Interpolator: \<open>process_casts\<close>\<close>

text \<open>
  A \<open>pandas.DataFrame\<close> with three columns of one length is the list of its rows;
  building one from columns of different lengths raises. The first column is the
  pressure (\<open>p\<close>, \<open>p_int\<close>), the others are \<open>u\<close> and \<open>v\<close>
  (\<open>u_int\<close>, \<open>v_int\<close>).
\<close>

type_synonym 'a frame = "('a \<times> fl \<times> fl) list"

definition DataFrame :: "'a list \<Rightarrow> fl list \<Rightarrow> fl list \<Rightarrow> py_exception + 'a frame" where
  "DataFrame c1 c2 c3 =
     (if length c2 = length c1 \<and> length c3 = length c1
      then Inr (zip c1 (zip c2 c3))
      else Inl (ValueError DataFrame_lengths))"

definition col_p :: "'a frame \<Rightarrow> 'a list" where "col_p df = map fst df"
definition col_u :: "'a frame \<Rightarrow> fl list" where "col_u df = map (\<lambda>r. fst (snd r)) df"
definition col_v :: "'a frame \<Rightarrow> fl list" where "col_v df = map (\<lambda>r. snd (snd r)) df"

text \<open>
  \<open>np.interp(x, xp, fp, left, right)\<close>. For a sample \<open>x\<close> inside the range of
  \<open>xp\<close>, numpy looks for the index \<open>j\<close> with \<open>xp[j] \<le> x < xp[j+1]\<close>. On arrays
  of up to 4 points it does so by the linear scan
  \<^verbatim>\<open>for (i = 1; i < len && key >= arr[i]; ++i); return i - 1;\<close>
  which \<open>interp_index\<close> is. On longer arrays numpy bisects, starting from the index
  of the previous sample; that returns the same index when \<open>xp\<close> is non-decreasing,
  which the documentation of \<open>np.interp\<close> requires (it calls the results on any
  other \<open>xp\<close> nonsense). So \<open>interp_at\<close> is \<open>np.interp\<close> on every \<open>xp\<close> of up to
  4 points and on every non-decreasing \<open>xp\<close>; on a longer \<open>xp\<close> that is not
  non-decreasing it is not. A sample that hits \<open>xp[j]\<close> takes \<open>fp[j]\<close> as it
  is; otherwise the value is \<open>slope * (x - xp[j]) + fp[j]\<close>, tried from the other end
  when it is NaN.
\<close>

definition interp_index :: "real \<Rightarrow> real list \<Rightarrow> nat" where
  "interp_index key arr = length (takeWhile (\<lambda>a. a \<le> key) (tl arr))"

definition interp_at :: "real list \<Rightarrow> fl list \<Rightarrow> fl \<Rightarrow> fl \<Rightarrow> real \<Rightarrow> fl" where
  "interp_at xp fp left right x =
     (if last xp < x then right
      else if x < hd xp then left
      else
        let j = interp_index x xp in
        if j = length xp - 1 then fp ! j
        else if xp ! j = x then fp ! j
        else
          let slope = fl_div (fl_sub (fp ! (j + 1)) (fp ! j)) (xp ! (j + 1) - xp ! j);
              r = fl_add (fl_mul slope (Fin (x - xp ! j))) (fp ! j)
          in if isnan r
             then let r2 = fl_add (fl_mul slope (Fin (x - xp ! (j + 1)))) (fp ! (j + 1))
                  in if isnan r2 \<and> fl_eq (fp ! j) (fp ! (j + 1)) then fp ! j else r2
             else r)"

definition interp :: "real list \<Rightarrow> real list \<Rightarrow> fl list \<Rightarrow> fl \<Rightarrow> fl \<Rightarrow> py_exception + fl list" where
  "interp x xp fp left right =
     (if xp = [] then Inl (ValueError Interp_empty)
      else if length fp \<noteq> length xp then Inl (ValueError Interp_lengths)
      else Inr (map (interp_at xp fp left right) x))"

text \<open>
  Line 74. \<open>np.max\<close> of a pandas Series is \<open>Series.max()\<close>, which is NaN on an
  empty Series; \<open>np.min\<close> of a list propagates NaN.
\<close>

fun series_max :: "real list \<Rightarrow> fl" where
  "series_max [] = NaN"
| "series_max (x # xs) = Fin (fold max xs x)"

fun np_min2 :: "fl \<Rightarrow> real \<Rightarrow> fl" where
  "np_min2 NaN b = NaN"
| "np_min2 (Fin a) b = Fin (min a b)"

definition jointly_valid :: "real frame \<Rightarrow> real list" where
  "jointly_valid df = map fst (filter (\<lambda>(p, u, v). \<not> isnan u \<and> \<not> isnan v) df)"

definition max_depth :: "real frame \<Rightarrow> fl" where
  "max_depth df = np_min2 (series_max (jointly_valid df)) (last full_depth_range)"

text \<open>
  Lines 82 to 86: \<open>np.full_like(full_depth_range, np.nan, dtype=np.float64)\<close> and the
  slice assignment \<open>extended[:len(xs)] = xs\<close>.
\<close>

definition full_like_nan :: "real list \<Rightarrow> fl list" where
  "full_like_nan a = replicate (length a) NaN"

definition set_prefix :: "fl list \<Rightarrow> fl list \<Rightarrow> py_exception + fl list" where
  "set_prefix extended xs =
     (if length xs \<le> length extended
      then Inr (xs @ drop (length xs) extended)
      else Inl (ValueError Broadcast_shape))"

text \<open>Lines 74 to 93: the body of the second loop, for one cast.\<close>

definition interpolate :: "real frame \<Rightarrow> py_exception + real frame" where
  "interpolate df =
     (case arange_fl 2 (fl_add (max_depth df) (Fin 1)) 2 of
        Inl e \<Rightarrow> Inl e
      | Inr interpolated_p \<Rightarrow>
     (case interp interpolated_p (col_p df) (col_u df) NaN NaN of
        Inl e \<Rightarrow> Inl e
      | Inr interpolated_u \<Rightarrow>
     (case interp interpolated_p (col_p df) (col_v df) NaN NaN of
        Inl e \<Rightarrow> Inl e
      | Inr interpolated_v \<Rightarrow>
     (case set_prefix (full_like_nan full_depth_range) interpolated_u of
        Inl e \<Rightarrow> Inl e
      | Inr u_extended \<Rightarrow>
     (case set_prefix (full_like_nan full_depth_range) interpolated_v of
        Inl e \<Rightarrow> Inl e
      | Inr v_extended \<Rightarrow> DataFrame full_depth_range u_extended v_extended)))))"

text \<open>Lines 57 to 64 and 66 to 94: the two loops of \<open>process_casts\<close>.\<close>

fun build_frames ::
  "(string \<times> dr) list \<Rightarrow> (string \<times> real frame) list \<Rightarrow> py_exception + (string \<times> real frame) list" where
  "build_frames [] Cdata = Inr Cdata"
| "build_frames ((cast, data) # rest) Cdata =
     (case DataFrame (dr_p data) (dr_u data) (dr_v data) of
        Inl e \<Rightarrow> Inl e
      | Inr df \<Rightarrow> build_frames rest (AList.update cast df Cdata))"

fun interpolate_frames ::
  "(string \<times> real frame) list \<Rightarrow> (string \<times> real frame) list \<Rightarrow> py_exception + (string \<times> real frame) list" where
  "interpolate_frames [] Cdata_interpolated = Inr Cdata_interpolated"
| "interpolate_frames ((cast, df) # rest) Cdata_interpolated =
     (case interpolate df of
        Inl e \<Rightarrow> Inl e
      | Inr r \<Rightarrow> interpolate_frames rest (AList.update cast r Cdata_interpolated))"

definition process_casts :: "(string \<times> dr) list \<Rightarrow> py_exception + (string \<times> real frame) list" where
  "process_casts valid_casts =
     (case build_frames valid_casts [] of
        Inl e \<Rightarrow> Inl e
      | Inr Cdata \<Rightarrow> interpolate_frames Cdata [])"

text \<open>The arrays of line 85 and 86 once filled: the values, then NaN up to the grid length.\<close>

definition extend_nan :: "fl list \<Rightarrow> fl list" where
  "extend_nan xs = xs @ replicate (length full_depth_range - length xs) NaN"

text \<open>The frame of line 64 for a cast whose three columns have one length.\<close>

definition frame_of :: "dr \<Rightarrow> real frame" where
  "frame_of d = zip (dr_p d) (zip (dr_u d) (dr_v d))"

text \<open>The columns of a cast have one length (the invariant of the data model).\<close>

definition columns_agree :: "dr \<Rightarrow> bool" where
  "columns_agree d = (length (dr_u d) = length (dr_p d) \<and> length (dr_v d) = length (dr_p d))"

subsection \<open>Renderer: \<open>plot_adcp_data\<close>\<close>

text \<open>
  What the renderer draws is kept in a state: the calls of \<open>plt.quiver\<close> in order
  (longitude, latitude, u, v, colour), the lists \<open>lons\<close> and \<open>lats\<close>, and the local
  variables \<open>lat\<close> and \<open>lon\<close>, which are unbound (\<open>None\<close>) until line 120 and 121
  assign them.
\<close>

type_synonym quiver = "fl \<times> fl \<times> fl \<times> fl \<times> string"

record plot_state =
  quivers :: "quiver list"
  lons :: "fl list"
  lats :: "fl list"
  lat_var :: "fl option"
  lon_var :: "fl option"

definition initial_state :: plot_state where
  "initial_state = \<lparr>quivers = [], lons = [], lats = [], lat_var = None, lon_var = None\<rparr>"

text \<open>\<open>plt.quiver(lon, lat, u, v, ...)\<close>, \<open>lons.append(lon)\<close>, \<open>lats.append(lat)\<close>.\<close>

definition draw :: "plot_state \<Rightarrow> fl \<Rightarrow> fl \<Rightarrow> fl \<Rightarrow> fl \<Rightarrow> string \<Rightarrow> plot_state" where
  "draw st lon lat u v color =
     st\<lparr>quivers := quivers st @ [(lon, lat, u, v, color)],
        lons := lons st @ [lon],
        lats := lats st @ [lat]\<rparr>"

text \<open>
  Lines 116 to 124, one pass of the inner loop. The columns of a frame have the labels
  \<open>0, ..., len - 1\<close>, so \<open>u_int[ind]\<close> with a negative \<open>ind\<close> raises \<open>KeyError\<close>.
\<close>

definition highlight ::
  "real frame \<Rightarrow> (string \<times> dr) list \<Rightarrow> string \<Rightarrow> plot_state \<Rightarrow> int \<times> string
   \<Rightarrow> py_exception + plot_state" where
  "highlight df valid_casts cast st ic =
     (case ic of (ind, color) \<Rightarrow>
        if int (length df) \<le> ind then Inr st
        else if ind < 0 then Inl KeyError
        else if isnan (col_u df ! nat ind) then Inr st
        else
          (case map_of valid_casts cast of
             None \<Rightarrow> Inl KeyError
           | Some d \<Rightarrow>
               Inr (draw (st\<lparr>lat_var := Some (dr_lat d), lon_var := Some (dr_lon d)\<rparr>)
                         (dr_lon d) (dr_lat d) (col_u df ! nat ind) (col_v df ! nat ind) color)))"

fun highlights ::
  "real frame \<Rightarrow> (string \<times> dr) list \<Rightarrow> string \<Rightarrow> (int \<times> string) list \<Rightarrow> plot_state
   \<Rightarrow> py_exception + plot_state" where
  "highlights df valid_casts cast [] st = Inr st"
| "highlights df valid_casts cast (ic # rest) st =
     (case highlight df valid_casts cast st ic of
        Inl e \<Rightarrow> Inl e
      | Inr st' \<Rightarrow> highlights df valid_casts cast rest st')"

text \<open>
  Line 127: the last label at which \<open>u_int\<close> is not NaN; \<open>.index[-1]\<close> of an empty
  selection raises \<open>IndexError\<close>.
\<close>

definition last_valid_index :: "real frame \<Rightarrow> py_exception + nat" where
  "last_valid_index df =
     (case filter (\<lambda>i. \<not> isnan (col_u df ! i)) [0..<length df] of
        [] \<Rightarrow> Inl IndexError
      | i # is \<Rightarrow> Inr (last (i # is)))"

text \<open>
  The test of line 116 on a pair: the pair is skipped when the index is at or beyond
  the length or, for an index that is not negative, \<open>u_int\<close> is NaN there; it is
  drawn when the index is within the frame and \<open>u_int\<close> is present there.
\<close>

definition skipped :: "real frame \<Rightarrow> int \<times> string \<Rightarrow> bool" where
  "skipped df ic = (case ic of (ind, color) \<Rightarrow>
     int (length df) \<le> ind \<or> (0 \<le> ind \<and> isnan (col_u df ! nat ind)))"

definition drawn :: "real frame \<Rightarrow> int \<times> string \<Rightarrow> bool" where
  "drawn df ic = (case ic of (ind, color) \<Rightarrow>
     0 \<le> ind \<and> ind < int (length df) \<and> \<not> isnan (col_u df ! nat ind))"

text \<open>
  The vectors of the pairs of a cast that are drawn, in the order of the pairs, each
  at the position of the record \<open>d\<close> with the \<open>u\<close> and \<open>v\<close> of its index.
\<close>

definition highlight_vectors :: "dr \<Rightarrow> real frame \<Rightarrow> (int \<times> string) list \<Rightarrow> quiver list" where
  "highlight_vectors d df ics =
     map (\<lambda>(ind, color). (dr_lon d, dr_lat d, col_u df ! nat ind, col_v df ! nat ind, color))
         (filter (drawn df) ics)"

text \<open>Lines 127 to 132. Reading \<open>lon\<close> or \<open>lat\<close> while unbound raises.\<close>

definition bottom_most :: "real frame \<Rightarrow> plot_state \<Rightarrow> py_exception + plot_state" where
  "bottom_most df st =
     (case last_valid_index df of
        Inl e \<Rightarrow> Inl e
      | Inr i \<Rightarrow>
          (case lon_var st of
             None \<Rightarrow> Inl UnboundLocalError
           | Some lon \<Rightarrow>
               (case lat_var st of
                  None \<Rightarrow> Inl UnboundLocalError
                | Some lat \<Rightarrow> Inr (draw st lon lat (col_u df ! i) (col_v df ! i) ''black''))))"

text \<open>Lines 115 to 132: the body of the outer loop, for one cast.\<close>

definition plot_cast ::
  "real frame \<Rightarrow> (string \<times> dr) list \<Rightarrow> string \<Rightarrow> (int \<times> string) list \<Rightarrow> plot_state
   \<Rightarrow> py_exception + plot_state" where
  "plot_cast df valid_casts cast ics st =
     (case highlights df valid_casts cast ics st of
        Inl e \<Rightarrow> Inl e
      | Inr st' \<Rightarrow> bottom_most df st')"

text \<open>
  Line 114: the loop over the keys of \<open>Cdata_interpolated\<close>; the keys of a dictionary
  are distinct, so \<open>Cdata_interpolated[cast]\<close> is the frame stored with the key.
\<close>

fun plot_casts ::
  "(string \<times> real frame) list \<Rightarrow> (string \<times> dr) list \<Rightarrow> (int \<times> string) list \<Rightarrow> plot_state
   \<Rightarrow> py_exception + plot_state" where
  "plot_casts [] valid_casts ics st = Inr st"
| "plot_casts ((cast, df) # rest) valid_casts ics st =
     (case plot_cast df valid_casts cast ics st of
        Inl e \<Rightarrow> Inl e
      | Inr st' \<Rightarrow> plot_casts rest valid_casts ics st')"

text \<open>Python's \<open>min\<close> and \<open>max\<close> of a non-empty list, by \<open><\<close> and \<open>>\<close>.\<close>

fun py_min :: "fl list \<Rightarrow> py_exception + fl" where
  "py_min [] = Inl (ValueError Min_empty)"
| "py_min (x # xs) = Inr (fold (\<lambda>y m. if fl_less y m then y else m) xs x)"

fun py_max :: "fl list \<Rightarrow> py_exception + fl" where
  "py_max [] = Inl (ValueError Max_empty)"
| "py_max (x # xs) = Inr (fold (\<lambda>y m. if fl_less m y then y else m) xs x)"

text \<open>
  Lines 139 and 140: \<open>plt.xlim(min(xs) - 0.2, max(xs) + 0.2)\<close>. Both bounds are
  computed first; matplotlib then refuses a bound that is NaN.
\<close>

definition limits :: "fl list \<Rightarrow> py_exception + fl \<times> fl" where
  "limits xs =
     (case py_min xs of
        Inl e \<Rightarrow> Inl e
      | Inr lo \<Rightarrow>
          (case py_max xs of
             Inl e \<Rightarrow> Inl e
           | Inr hi \<Rightarrow>
               let left = fl_sub lo (Fin (2 / 10)); right = fl_add hi (Fin (2 / 10))
               in if isnan left \<or> isnan right then Inl (ValueError Axis_limits)
                  else Inr (left, right)))"

text \<open>
  \<open>plot_adcp_data\<close>. The argument \<open>bathy\<close> is what \<open>xr.open_dataset(bathy_path)\<close>
  does: raise, or return a dataset, given by the names of its variables, of which
  line 109 reads \<open>Band1\<close>. The result is the final state with the limits of the two
  axes. Labels and the legend are left out.
\<close>

definition plot_adcp_data ::
  "(string \<times> real frame) list \<Rightarrow> (string \<times> dr) list \<Rightarrow> py_exception + string list
   \<Rightarrow> int list \<Rightarrow> string list \<Rightarrow> py_exception + plot_state \<times> (fl \<times> fl) \<times> (fl \<times> fl)" where
  "plot_adcp_data Cdata_interpolated valid_casts bathy indices colors =
     (case bathy of
        Inl e \<Rightarrow> Inl e
      | Inr bathy_data \<Rightarrow>
          if ''Band1'' \<notin> set bathy_data then Inl KeyError
          else
            (case plot_casts Cdata_interpolated valid_casts (zip indices colors) initial_state of
               Inl e \<Rightarrow> Inl e
             | Inr st \<Rightarrow>
                 (case limits (lons st) of
                    Inl e \<Rightarrow> Inl e
                  | Inr xlim \<Rightarrow>
                      (case limits (lats st) of
                         Inl e \<Rightarrow> Inl e
                       | Inr ylim \<Rightarrow> Inr (st, xlim, ylim)))))"

subsection \<open>Example inputs\<close>

text \<open>
  A directory with four files: cast 1 at longitude -113.5, cast 2 at longitude 0, a
  file 004.mat without the variable \<open>dr\<close>, and cast 7 at longitude -114.2.
\<close>

definition cast_001 :: dr where
  "cast_001 = \<lparr>dr_lon = Fin (- 1135 / 10), dr_lat = Fin (- 20),
               dr_p = [2, 4], dr_u = [Fin 1, Fin 2], dr_v = [Fin 1, Fin 2]\<rparr>"

definition cast_002 :: dr where
  "cast_002 = \<lparr>dr_lon = Fin 0, dr_lat = Fin (- 20),
               dr_p = [2, 4], dr_u = [Fin 1, Fin 2], dr_v = [Fin 1, Fin 2]\<rparr>"

definition cast_007 :: dr where
  "cast_007 = \<lparr>dr_lon = Fin (- 1142 / 10), dr_lat = Fin (- 21),
               dr_p = [2, 4], dr_u = [Fin 1, Fin 2], dr_v = [Fin 1, Fin 2]\<rparr>"

definition example_fs :: filesystem where
  "example_fs path =
     (if path = ''./processed/001.mat'' then Inr [''dr'' \<mapsto> cast_001]
      else if path = ''./processed/002.mat'' then Inr [''dr'' \<mapsto> cast_002]
      else if path = ''./processed/004.mat'' then Inr Map.empty
      else if path = ''./processed/007.mat'' then Inr [''dr'' \<mapsto> cast_007]
      else Inl FileNotFoundError)"


text \<open>
  The cast of the interpolation example: pressures 2, 4, 6, 8 with the sample of
  \<open>u\<close> at pressure 4 missing, and the frame line 64 builds for it.
\<close>

definition gap_cast :: dr where
  "gap_cast = \<lparr>dr_lon = Fin (- 114), dr_lat = Fin (- 21),
               dr_p = [2, 4, 6, 8],
               dr_u = [Fin 1, NaN, Fin 3, Fin 4],
               dr_v = [Fin 5, Fin 6, Fin 7, Fin 8]\<rparr>"

definition gap_frame :: "real frame" where
  "gap_frame = [(2, Fin 1, Fin 5), (4, NaN, Fin 6), (6, Fin 3, Fin 7), (8, Fin 4, Fin 8)]"

text \<open>
  A cast with a pressure that is not a whole number: the deepest sample with both
  \<open>u\<close> and \<open>v\<close> is at pressure 7.5, and a deeper sample has \<open>u\<close> only.
\<close>

definition fractional_cast :: dr where
  "fractional_cast = \<lparr>dr_lon = Fin (- 114), dr_lat = Fin (- 21),
               dr_p = [2, 15 / 2, 9],
               dr_u = [Fin 1, Fin 2, Fin 3],
               dr_v = [Fin 1, Fin 2, NaN]\<rparr>"

definition fractional_frame :: "real frame" where
  "fractional_frame = [(2, Fin 1, Fin 1), (15 / 2, Fin 2, Fin 2), (9, Fin 3, NaN)]"

text \<open>A cast without any sample at which both \<open>u\<close> and \<open>v\<close> are present.\<close>

definition no_valid_cast :: dr where
  "no_valid_cast = \<lparr>dr_lon = Fin (- 114), dr_lat = Fin (- 21),
               dr_p = [2, 4],
               dr_u = [Fin 1, NaN],
               dr_v = [NaN, Fin 2]\<rparr>"

text \<open>The interpolated frames of the two casts above.\<close>

definition gap_interpolated :: "real frame" where
  "gap_interpolated = zip full_depth_range
     (zip (extend_nan [Fin 1, NaN, Fin 3, Fin 4]) (extend_nan [Fin 5, Fin 6, Fin 7, Fin 8]))"

definition fractional_interpolated :: "real frame" where
  "fractional_interpolated = zip full_depth_range
     (zip (extend_nan [Fin 1, Fin (15 / 11), Fin (19 / 11), Fin (7 / 3)])
          (extend_nan [Fin 1, Fin (15 / 11), Fin (19 / 11), NaN]))"

text \<open>
  A cast whose two samples lie between the grid depths 2 and 4, and its interpolated
  frame, in which every \<open>u\<close> and \<open>v\<close> is NaN.
\<close>

definition shallow_cast :: dr where
  "shallow_cast = \<lparr>dr_lon = Fin (- 114), dr_lat = Fin (- 21),
               dr_p = [3, 7 / 2], dr_u = [Fin 1, Fin 2], dr_v = [Fin 1, Fin 2]\<rparr>"

definition shallow_interpolated :: "real frame" where
  "shallow_interpolated =
     zip full_depth_range (zip (extend_nan [NaN, NaN]) (extend_nan [NaN, NaN]))"

text \<open>
  A second cast with the samples of the first at another position, the mapping of
  both and the mapping of their interpolated frames.
\<close>

definition east_cast :: dr where
  "east_cast = \<lparr>dr_lon = Fin (- 113), dr_lat = Fin (- 22),
               dr_p = [2, 4, 6, 8],
               dr_u = [Fin 1, NaN, Fin 3, Fin 4],
               dr_v = [Fin 5, Fin 6, Fin 7, Fin 8]\<rparr>"

definition two_casts :: "(string \<times> dr) list" where
  "two_casts = [(''Cast002'', gap_cast), (''Cast003'', east_cast)]"

definition two_interpolated :: "(string \<times> real frame) list" where
  "two_interpolated = [(''Cast002'', gap_interpolated), (''Cast003'', gap_interpolated)]"

text \<open>
  A cast that starts at pressure 4, so that its interpolated \<open>u\<close> is NaN at index 0
  and present at the indices 1 and 2, at the position of \<open>east_cast\<close>; the mapping
  of the example cast and this one, and the mapping of their interpolated frames.
\<close>

definition offset_cast :: dr where
  "offset_cast = \<lparr>dr_lon = Fin (- 113), dr_lat = Fin (- 22),
               dr_p = [4, 6], dr_u = [Fin 1, Fin 2], dr_v = [Fin 1, Fin 2]\<rparr>"

definition offset_interpolated :: "real frame" where
  "offset_interpolated =
     zip full_depth_range (zip (extend_nan [NaN, Fin 1, Fin 2]) (extend_nan [NaN, Fin 1, Fin 2]))"

definition stale_casts :: "(string \<times> dr) list" where
  "stale_casts = [(''Cast002'', gap_cast), (''Cast003'', offset_cast)]"

definition stale_interpolated :: "(string \<times> real frame) list" where
  "stale_interpolated = [(''Cast002'', gap_interpolated), (''Cast003'', offset_interpolated)]"

subsection \<open>The depth grid\<close>

lemma length_arange: "length (arange start stop step) = nat \<lceil>(stop - start) / step\<rceil>"
  by (simp add: arange_def)

lemma nth_arange:
  "i < nat \<lceil>(stop - start) / step\<rceil> \<Longrightarrow> arange start stop step ! i = start + real i * step"
  by (simp add: arange_def)

lemma hd_arange:
  assumes "start < stop" "0 < step"
  shows "hd (arange start stop step) = start"
proof -
  define n where "n = nat \<lceil>(stop - start) / step\<rceil>"
  have "0 < n" unfolding n_def using assms by simp
  then have "hd (map (\<lambda>i. start + real i * step) [0..<n]) = start"
    by (simp add: hd_conv_nth)
  then show ?thesis by (simp add: arange_def n_def)
qed

lemma last_arange:
  assumes "start < stop" "0 < step"
  shows "last (arange start stop step)
         = start + real (nat \<lceil>(stop - start) / step\<rceil> - 1) * step"
proof -
  define n where "n = nat \<lceil>(stop - start) / step\<rceil>"
  have "0 < n" unfolding n_def using assms by simp
  then have "last (map (\<lambda>i. start + real i * step) [0..<n]) = start + real (n - 1) * step"
    by (simp add: last_conv_nth)
  then show ?thesis by (simp add: arange_def n_def)
qed

lemma length_full_depth_range: "length full_depth_range = 1287"
  by (simp add: full_depth_range_def length_arange)

lemma last_full_depth_range: "last full_depth_range = 2574"
  by (simp add: full_depth_range_def last_arange)

lemma full_depth_range_eq: "full_depth_range = map (\<lambda>i. 2 + 2 * real i) [0..<1287]"
proof -
  have n: "nat \<lceil>(2576 - 2) / (2::real)\<rceil> = 1287" by simp
  have f: "(\<lambda>i. 2 + real i * 2) = (\<lambda>i. 2 + 2 * real i)" by (simp add: mult.commute)
  show ?thesis unfolding full_depth_range_def arange_def n f ..
qed

text \<open>
  C1 (as amended). The shared depth grid is the list of the values \<open>2 + 2 * i\<close> for
  \<open>i = 0, ..., 1286\<close>: evenly spaced with step 2, first value 2, last value 2574,
  and of length 1287.
\<close>

theorem C1_grid:
  "full_depth_range = map (\<lambda>i. 2 + 2 * real i) [0..<1287]
   \<and> length full_depth_range = 1287
   \<and> hd full_depth_range = 2
   \<and> last full_depth_range = 2574"
proof -
  have h: "hd full_depth_range = 2"
    by (simp add: full_depth_range_def hd_arange)
  from full_depth_range_eq length_full_depth_range h last_full_depth_range
  show ?thesis by blast
qed

text \<open>C1 as stated fails: the grid does not have 1288 values.\<close>

theorem C1_length_counterexample: "length full_depth_range \<noteq> 1288"
  by (simp add: full_depth_range_def length_arange)

subsection \<open>Labels and the collector\<close>

declare digits.simps [simp del]


















text \<open>Cast 1 of the example directory loads, at longitude -113.5, and is not retained.\<close>

lemma example_cast_1:
  "get_adcp_data example_fs 1 = Inr cast_001 \<and> dr_lon cast_001 = Fin (- 1135 / 10)
   \<and> map_of [(''Cast007'', cast_007)] (cast_label 1) = None"
  by code_simp

subsection \<open>The interpolation of one cast\<close>

lemma nth_full_depth_range: "i < 1287 \<Longrightarrow> full_depth_range ! i = 2 + 2 * real i"
  by (simp add: full_depth_range_def nth_arange)

lemma max_depth_Fin:
  assumes "max_depth df = Fin m"
  shows "jointly_valid df \<noteq> [] \<and> m \<le> 2574 \<and> df \<noteq> []"
proof -
  have j: "jointly_valid df \<noteq> []"
    using assms by (auto simp: max_depth_def)
  then obtain x xs where x: "jointly_valid df = x # xs" by (cases "jointly_valid df") auto
  have "m = min (fold max xs x) 2574"
    using assms by (simp add: max_depth_def x last_full_depth_range)
  then have "m \<le> 2574" by simp
  moreover have "df \<noteq> []" using j by (auto simp: jointly_valid_def)
  ultimately show ?thesis using j by simp
qed

lemma max_depth_NaN: "jointly_valid df = [] \<Longrightarrow> max_depth df = NaN"
  by (simp add: max_depth_def)

lemma truncated_length:
  fixes m :: real
  assumes "m \<le> 2574"
  shows "nat \<lceil>(m + 1 - 2) / 2\<rceil> \<le> 1287"
proof -
  have "(m + 1 - 2) / 2 \<le> 1287" using assms by simp
  then have "\<lceil>(m + 1 - 2) / 2\<rceil> \<le> 1287" by (simp add: ceiling_le_iff)
  then show ?thesis by simp
qed

lemma interpolate_Fin:
  assumes "max_depth df = Fin m"
  shows "interpolate df =
           Inr (zip full_depth_range
                 (zip (extend_nan (map (interp_at (col_p df) (col_u df) NaN NaN) (arange 2 (m + 1) 2)))
                      (extend_nan (map (interp_at (col_p df) (col_v df) NaN NaN) (arange 2 (m + 1) 2)))))"
proof -
  from max_depth_Fin [OF assms] have ne: "df \<noteq> []" and le: "m \<le> 2574" by simp_all
  have n: "length (arange 2 (m + 1) 2) \<le> length full_depth_range"
    using truncated_length [OF le] by (simp add: length_arange length_full_depth_range)
  have a: "arange_fl 2 (fl_add (max_depth df) (Fin 1)) 2 = Inr (arange 2 (m + 1) 2)"
    by (simp add: assms)
  have i2: "interp (arange 2 (m + 1) 2) (col_p df) (col_u df) NaN NaN
            = Inr (map (interp_at (col_p df) (col_u df) NaN NaN) (arange 2 (m + 1) 2))"
    using ne by (simp add: interp_def col_p_def col_u_def)
  have i3: "interp (arange 2 (m + 1) 2) (col_p df) (col_v df) NaN NaN
            = Inr (map (interp_at (col_p df) (col_v df) NaN NaN) (arange 2 (m + 1) 2))"
    using ne by (simp add: interp_def col_p_def col_v_def)
  have s: "\<And>xs. length xs = length (arange 2 (m + 1) 2)
              \<Longrightarrow> set_prefix (full_like_nan full_depth_range) xs = Inr (extend_nan xs)"
    using n by (simp add: set_prefix_def full_like_nan_def extend_nan_def)
  have l: "\<And>xs. length xs = length (arange 2 (m + 1) 2)
              \<Longrightarrow> length (extend_nan xs) = length full_depth_range"
    using n by (simp add: extend_nan_def)
  show ?thesis
    by (simp add: interpolate_def a i2 i3 s l DataFrame_def)
qed

lemma interpolate_NaN: "max_depth df = NaN \<Longrightarrow> interpolate df = Inl (ValueError Arange_length)"
  by (simp add: interpolate_def)

lemma interpolate_length:
  assumes "interpolate df = Inr r"
  shows "length r = length full_depth_range"
proof (cases "max_depth df")
  case NaN
  with assms show ?thesis by (simp add: interpolate_NaN)
next
  case (Fin m)
  from max_depth_Fin [OF Fin] have le: "m \<le> 2574" by simp
  have n: "length (arange 2 (m + 1) 2) \<le> length full_depth_range"
    using truncated_length [OF le] by (simp add: length_arange length_full_depth_range)
  from assms show ?thesis
    unfolding interpolate_Fin [OF Fin] using n by (auto simp: extend_nan_def)
qed

lemma nth_extend_nan:
  "length xs \<le> length full_depth_range \<Longrightarrow> i < length full_depth_range
   \<Longrightarrow> extend_nan xs ! i = (if i < length xs then xs ! i else NaN)"
  by (simp add: extend_nan_def nth_append)

lemma interpolate_row:
  assumes "max_depth df = Fin m" and "interpolate df = Inr r" and "i < 1287"
  shows "r ! i =
           (2 + 2 * real i,
            if i < nat \<lceil>(m + 1 - 2) / 2\<rceil> then interp_at (col_p df) (col_u df) NaN NaN (2 + 2 * real i) else NaN,
            if i < nat \<lceil>(m + 1 - 2) / 2\<rceil> then interp_at (col_p df) (col_v df) NaN NaN (2 + 2 * real i) else NaN)"
proof -
  from max_depth_Fin [OF assms(1)] have le: "m \<le> 2574" by simp
  define n where "n = nat \<lceil>(m + 1 - 2) / 2\<rceil>"
  have n: "n \<le> 1287" unfolding n_def by (rule truncated_length [OF le])
  have la: "length (arange 2 (m + 1) 2) = n" by (simp add: length_arange n_def)
  have e: "\<And>f. extend_nan (map f (arange 2 (m + 1) 2)) ! i
               = (if i < n then f (2 + 2 * real i) else NaN)"
  proof -
    fix f :: "real \<Rightarrow> fl"
    have "extend_nan (map f (arange 2 (m + 1) 2)) ! i
          = (if i < n then map f (arange 2 (m + 1) 2) ! i else NaN)"
      using n assms(3) la by (simp add: nth_extend_nan length_full_depth_range)
    moreover have "i < n \<Longrightarrow> arange 2 (m + 1) 2 ! i = 2 + 2 * real i"
      unfolding n_def by (simp add: nth_arange)
    ultimately show "extend_nan (map f (arange 2 (m + 1) 2)) ! i
          = (if i < n then f (2 + 2 * real i) else NaN)"
      using la by simp
  qed
  have len: "\<And>f. length (extend_nan (map f (arange 2 (m + 1) 2))) = 1287"
    using n la by (simp add: extend_nan_def length_full_depth_range)
  have "r = zip full_depth_range
                 (zip (extend_nan (map (interp_at (col_p df) (col_u df) NaN NaN) (arange 2 (m + 1) 2)))
                      (extend_nan (map (interp_at (col_p df) (col_v df) NaN NaN) (arange 2 (m + 1) 2))))"
    using assms(2) unfolding interpolate_Fin [OF assms(1)] by simp
  then show ?thesis
    using assms(3) by (simp add: len length_full_depth_range nth_full_depth_range e n_def)
qed

lemma process_casts_single:
  assumes "length (dr_u d) = length (dr_p d)" and "length (dr_v d) = length (dr_p d)"
  shows "process_casts [(c, d)] =
           (case interpolate (frame_of d) of Inl e \<Rightarrow> Inl e | Inr r \<Rightarrow> Inr [(c, r)])"
  using assms by (simp add: process_casts_def DataFrame_def frame_of_def split: sum.splits)

lemma length_extend_nan:
  "length xs \<le> length full_depth_range \<Longrightarrow> length (extend_nan xs) = length full_depth_range"
  by (simp add: extend_nan_def)

lemma zip_extend_nth:
  assumes "length us \<le> 1287" "length vs \<le> 1287" "i < 1287"
  shows "zip full_depth_range (zip (extend_nan us) (extend_nan vs)) ! i
         = (2 + 2 * real i, if i < length us then us ! i else NaN, if i < length vs then vs ! i else NaN)"
  using assms
  by (simp add: nth_extend_nan length_extend_nan length_full_depth_range nth_full_depth_range)

lemma length_zip_extend:
  assumes "length us \<le> 1287" "length vs \<le> 1287"
  shows "length (zip full_depth_range (zip (extend_nan us) (extend_nan vs))) = 1287"
  using assms by (simp add: length_extend_nan length_full_depth_range)

lemma col_u_nth: "i < length df \<Longrightarrow> col_u df ! i = fst (snd (df ! i))"
  by (simp add: col_u_def)

lemma col_v_nth: "i < length df \<Longrightarrow> col_v df ! i = snd (snd (df ! i))"
  by (simp add: col_v_def)

lemma col_u_zip_extend:
  assumes "length us \<le> 1287" "length vs \<le> 1287" "i < 1287"
  shows "col_u (zip full_depth_range (zip (extend_nan us) (extend_nan vs))) ! i
         = (if i < length us then us ! i else NaN)"
proof -
  have "i < length (zip full_depth_range (zip (extend_nan us) (extend_nan vs)))"
    unfolding length_zip_extend [OF assms(1,2)] by (rule assms(3))
  then have "col_u (zip full_depth_range (zip (extend_nan us) (extend_nan vs))) ! i
             = fst (snd (zip full_depth_range (zip (extend_nan us) (extend_nan vs)) ! i))"
    by (rule col_u_nth)
  then show ?thesis unfolding zip_extend_nth [OF assms] by simp
qed

lemma col_v_zip_extend:
  assumes "length us \<le> 1287" "length vs \<le> 1287" "i < 1287"
  shows "col_v (zip full_depth_range (zip (extend_nan us) (extend_nan vs))) ! i
         = (if i < length vs then vs ! i else NaN)"
proof -
  have "i < length (zip full_depth_range (zip (extend_nan us) (extend_nan vs)))"
    unfolding length_zip_extend [OF assms(1,2)] by (rule assms(3))
  then have "col_v (zip full_depth_range (zip (extend_nan us) (extend_nan vs))) ! i
             = snd (snd (zip full_depth_range (zip (extend_nan us) (extend_nan vs)) ! i))"
    by (rule col_v_nth)
  then show ?thesis unfolding zip_extend_nth [OF assms] by simp
qed

text \<open>
  What holds of every cast: the rows at grid depths from \<open>max_depth + 1\<close> on are NaN.
\<close>

lemma interpolate_beyond:
  assumes "max_depth df = Fin m" and "interpolate df = Inr r" and "i < 1287"
    and "m + 1 \<le> 2 + 2 * real i"
  shows "r ! i = (2 + 2 * real i, NaN, NaN)"
proof -
  have "(m + 1 - 2) / 2 \<le> real i" using assms(4) by simp
  then have "\<lceil>(m + 1 - 2) / 2\<rceil> \<le> int i" by (simp add: ceiling_le_iff)
  then have "\<not> i < nat \<lceil>(m + 1 - 2) / 2\<rceil>" by simp
  then show ?thesis using interpolate_row [OF assms(1,2,3)] by simp
qed

lemma interpolate_Inl: "interpolate df = Inl e \<Longrightarrow> e = ValueError Arange_length"
proof (cases "max_depth df")
  case NaN
  assume "interpolate df = Inl e"
  with NaN show ?thesis by (simp add: interpolate_NaN)
next
  case (Fin m)
  assume "interpolate df = Inl e"
  then show ?thesis unfolding interpolate_Fin [OF Fin] by simp
qed

lemma build_frames_Inl: "build_frames vs acc = Inl e \<Longrightarrow> e = ValueError DataFrame_lengths"
  by (induction vs acc rule: build_frames.induct)
     (auto simp: DataFrame_def split: sum.splits if_splits)

lemma interpolate_frames_Inl:
  "interpolate_frames Cd acc = Inl e \<Longrightarrow> e = ValueError Arange_length"
  by (induction Cd acc rule: interpolate_frames.induct)
     (auto dest: interpolate_Inl split: sum.splits)

lemma interpolate_frames_fail:
  "(c, df) \<in> set Cd \<Longrightarrow> interpolate df = Inl e \<Longrightarrow> \<exists>e'. interpolate_frames Cd acc = Inl e'"
proof (induction Cd arbitrary: acc)
  case Nil
  then show ?case by simp
next
  case (Cons x Cd)
  obtain c' df' where x: "x = (c', df')" by (cases x)
  show ?case
  proof (cases "interpolate df'")
    case (Inl e')
    then show ?thesis by (simp add: x)
  next
    case (Inr r)
    with Cons.prems x have "(c, df) \<in> set Cd" by auto
    from Cons.IH [OF this Cons.prems(2)] Inr show ?thesis by (simp add: x)
  qed
qed

lemma build_frames_other:
  "build_frames vs acc = Inr Cd \<Longrightarrow> k \<notin> fst ` set vs \<Longrightarrow> map_of Cd k = map_of acc k"
proof (induction vs arbitrary: acc)
  case Nil
  then show ?case by simp
next
  case (Cons x vs)
  obtain c d where x: "x = (c, d)" by (cases x)
  from Cons.prems x obtain df where df: "DataFrame (dr_p d) (dr_u d) (dr_v d) = Inr df"
    and b: "build_frames vs (AList.update c df acc) = Inr Cd"
    by (auto split: sum.splits)
  have "k \<noteq> c" and "k \<notin> fst ` set vs" using Cons.prems x by auto
  with Cons.IH [OF b] show ?case by (simp add: update_conv')
qed

lemma build_frames_member:
  "build_frames vs acc = Inr Cd \<Longrightarrow> distinct (map fst vs) \<Longrightarrow> (c, d) \<in> set vs
   \<Longrightarrow> map_of Cd c = Some (frame_of d)"
proof (induction vs arbitrary: acc)
  case Nil
  then show ?case by simp
next
  case (Cons x vs)
  obtain c' d' where x: "x = (c', d')" by (cases x)
  from Cons.prems x obtain df where df: "DataFrame (dr_p d') (dr_u d') (dr_v d') = Inr df"
    and b: "build_frames vs (AList.update c' df acc) = Inr Cd"
    by (auto split: sum.splits)
  have dis: "distinct (map fst vs)" and notin: "c' \<notin> fst ` set vs"
    using Cons.prems x by auto
  show ?case
  proof (cases "(c, d) \<in> set vs")
    case True
    from Cons.IH [OF b dis True] show ?thesis .
  next
    case False
    with Cons.prems x have eq: "c = c'" "d = d'" by auto
    have "df = frame_of d'" using df by (auto simp: DataFrame_def frame_of_def split: if_splits)
    with build_frames_other [OF b notin] eq show ?thesis by (simp add: update_conv')
  qed
qed

subsection \<open>Examples of the interpolation\<close>

lemma arange_4: "arange 2 9 2 = [2, 4, 6, 8]"
proof -
  have "nat \<lceil>(9 - 2) / (2::real)\<rceil> = 4" by simp
  moreover have "[0..<4] = [0, 1, 2, 3]" by code_simp
  ultimately show ?thesis by (simp add: arange_def)
qed

lemma max_depth_gap: "max_depth gap_frame = Fin 8"
  by (simp add: max_depth_def gap_frame_def jointly_valid_def last_full_depth_range)

lemma interpolate_gap: "interpolate gap_frame = Inr gap_interpolated"
proof -
  have u: "map (interp_at (col_p gap_frame) (col_u gap_frame) NaN NaN) [2, 4, 6, 8]
           = [Fin 1, NaN, Fin 3, Fin 4]"
    by (simp add: gap_frame_def col_p_def col_u_def interp_at_def interp_index_def)
  have v: "map (interp_at (col_p gap_frame) (col_v gap_frame) NaN NaN) [2, 4, 6, 8]
           = [Fin 5, Fin 6, Fin 7, Fin 8]"
    by (simp add: gap_frame_def col_p_def col_v_def interp_at_def interp_index_def)
  have a: "arange 2 (8 + 1) 2 = [2, 4, 6, 8]" using arange_4 by simp
  show ?thesis unfolding interpolate_Fin [OF max_depth_gap] a u v gap_interpolated_def ..
qed

lemma frame_of_gap: "frame_of gap_cast = gap_frame"
  by (simp add: frame_of_def gap_cast_def gap_frame_def)

lemma process_casts_gap:
  "process_casts [(''Cast002'', gap_cast)] = Inr [(''Cast002'', gap_interpolated)]"
proof -
  have "process_casts [(''Cast002'', gap_cast)] =
           (case interpolate (frame_of gap_cast) of Inl e \<Rightarrow> Inl e | Inr r \<Rightarrow> Inr [(''Cast002'', r)])"
    by (rule process_casts_single) (simp_all add: gap_cast_def)
  then show ?thesis by (simp add: frame_of_gap interpolate_gap)
qed

lemma gap_interpolated_rows:
  "gap_interpolated ! 0 = (2, Fin 1, Fin 5)"
  "gap_interpolated ! 1 = (4, NaN, Fin 6)"
  "gap_interpolated ! 2 = (6, Fin 3, Fin 7)"
  "gap_interpolated ! 3 = (8, Fin 4, Fin 8)"
  "gap_interpolated ! 4 = (10, NaN, NaN)"
  by (simp_all add: gap_interpolated_def zip_extend_nth)

text \<open>
  C3 (as amended). For the cast with pressures 2, 4, 6, 8, \<open>u\<close> = 1, NaN, 3, 4 and
  \<open>v\<close> all present, the largest jointly valid depth is 8 and the interpolated \<open>u\<close>
  is 1, NaN, 3, 4 at the depths 2, 4, 6, 8, followed by NaN: the grid depth 4 meets
  the missing source sample and takes its NaN.
\<close>

theorem C3_example:
  "max_depth (frame_of gap_cast) = Fin 8
   \<and> process_casts [(''Cast002'', gap_cast)] = Inr [(''Cast002'', gap_interpolated)]
   \<and> gap_interpolated ! 0 = (2, Fin 1, Fin 5)
   \<and> gap_interpolated ! 1 = (4, NaN, Fin 6)
   \<and> gap_interpolated ! 2 = (6, Fin 3, Fin 7)
   \<and> gap_interpolated ! 3 = (8, Fin 4, Fin 8)
   \<and> gap_interpolated ! 4 = (10, NaN, NaN)"
  using max_depth_gap process_casts_gap gap_interpolated_rows by (simp add: frame_of_gap)

text \<open>
  C3 as stated fails: the interpolated \<open>u\<close> at depth 4 (the row of index 1) is not 2.
\<close>

theorem C3_depth_4_counterexample:
  "\<not> (\<exists>r. process_casts [(''Cast002'', gap_cast)] = Inr [(''Cast002'', r)]
            \<and> fst (r ! 1) = 4 \<and> fst (snd (r ! 1)) = Fin 2)"
  unfolding process_casts_gap using gap_interpolated_rows(2) by auto

lemma arange_fractional: "arange 2 (15 / 2 + 1) 2 = [2, 4, 6, 8]"
proof -
  have "nat \<lceil>(15 / 2 + 1 - 2) / (2::real)\<rceil> = 4" by simp
  moreover have "[0..<4] = [0, 1, 2, 3]" by code_simp
  ultimately show ?thesis by (simp add: arange_def)
qed

lemma max_depth_fractional: "max_depth fractional_frame = Fin (15 / 2)"
  by (simp add: max_depth_def fractional_frame_def jointly_valid_def last_full_depth_range)

lemma interpolate_fractional: "interpolate fractional_frame = Inr fractional_interpolated"
proof -
  have u: "map (interp_at (col_p fractional_frame) (col_u fractional_frame) NaN NaN) [2, 4, 6, 8]
           = [Fin 1, Fin (15 / 11), Fin (19 / 11), Fin (7 / 3)]"
    by (simp add: fractional_frame_def col_p_def col_u_def interp_at_def interp_index_def)
  have v: "map (interp_at (col_p fractional_frame) (col_v fractional_frame) NaN NaN) [2, 4, 6, 8]
           = [Fin 1, Fin (15 / 11), Fin (19 / 11), NaN]"
    by (simp add: fractional_frame_def col_p_def col_v_def interp_at_def interp_index_def)
  show ?thesis
    unfolding interpolate_Fin [OF max_depth_fractional] arange_fractional u v
      fractional_interpolated_def ..
qed

lemma frame_of_fractional: "frame_of fractional_cast = fractional_frame"
  by (simp add: frame_of_def fractional_cast_def fractional_frame_def)

lemma process_casts_fractional:
  "process_casts [(''Cast002'', fractional_cast)] = Inr [(''Cast002'', fractional_interpolated)]"
proof -
  have "process_casts [(''Cast002'', fractional_cast)] =
           (case interpolate (frame_of fractional_cast) of
              Inl e \<Rightarrow> Inl e | Inr r \<Rightarrow> Inr [(''Cast002'', r)])"
    by (rule process_casts_single) (simp_all add: fractional_cast_def)
  then show ?thesis by (simp add: frame_of_fractional interpolate_fractional)
qed

lemma length_fractional_interpolated: "length fractional_interpolated = 1287"
  unfolding fractional_interpolated_def by (rule length_zip_extend) simp_all

text \<open>
  C2 at the cast with the fractional pressure: the frame has the length of the grid,
  \<open>max_depth\<close> is 7.5, the truncated depths \<open>np.arange(2, 8.5, 2)\<close> reach 8, and the
  interpolated \<open>u\<close> at the grid depth 8, beyond \<open>max_depth\<close>, is 7/3 and not NaN.
\<close>

theorem C2_value_beyond_max_depth:
  "max_depth (frame_of fractional_cast) = Fin (15 / 2)
   \<and> process_casts [(''Cast002'', fractional_cast)] = Inr [(''Cast002'', fractional_interpolated)]
   \<and> length fractional_interpolated = length full_depth_range
   \<and> fractional_interpolated ! 3 = (8, Fin (7 / 3), NaN)"
proof -
  have "fractional_interpolated ! 3 = (8, Fin (7 / 3), NaN)"
    by (simp add: fractional_interpolated_def zip_extend_nth)
  with max_depth_fractional process_casts_fractional length_fractional_interpolated
  show ?thesis by (simp add: frame_of_fractional length_full_depth_range)
qed

subsection \<open>A cast without a jointly valid sample\<close>

lemma build_frames_ok:
  "list_all (\<lambda>(c, d). columns_agree d) vs \<Longrightarrow> \<exists>Cd. build_frames vs acc = Inr Cd"
proof (induction vs arbitrary: acc)
  case Nil
  then show ?case by simp
next
  case (Cons x vs)
  obtain c d where x: "x = (c, d)" by (cases x)
  from Cons.prems x have "columns_agree d" and rest: "list_all (\<lambda>(c, d). columns_agree d) vs"
    by simp_all
  then have "DataFrame (dr_p d) (dr_u d) (dr_v d) = Inr (frame_of d)"
    by (simp add: DataFrame_def columns_agree_def frame_of_def)
  with Cons.IH [OF rest] show ?case by (simp add: x)
qed

text \<open>
  C6 (as amended). When the keys of the retained mapping are distinct, the columns
  of every cast have one length and a cast has no pressure sample at which both \<open>u\<close>
  and \<open>v\<close> are present, line 74 gives that cast the \<open>max_depth\<close> NaN without a
  check, line 77 raises the \<open>ValueError\<close> of \<open>np.arange\<close> on the NaN bound, and
  \<open>process_casts\<close> as a whole ends with that exception: no mapping is returned,
  with or without the cast.
\<close>

theorem C6_no_jointly_valid_aborts:
  assumes "(cast, d) \<in> set valid_casts"
    and "distinct (map fst valid_casts)"
    and "list_all (\<lambda>(c, d'). columns_agree d') valid_casts"
    and "jointly_valid (frame_of d) = []"
  shows "max_depth (frame_of d) = NaN
         \<and> interpolate (frame_of d) = Inl (ValueError Arange_length)
         \<and> process_casts valid_casts = Inl (ValueError Arange_length)"
proof -
  have m: "max_depth (frame_of d) = NaN" using assms(4) by (rule max_depth_NaN)
  then have i: "interpolate (frame_of d) = Inl (ValueError Arange_length)"
    by (rule interpolate_NaN)
  obtain Cdata where b: "build_frames valid_casts [] = Inr Cdata"
    using build_frames_ok [OF assms(3)] by blast
  from build_frames_member [OF b assms(2,1)] have "(cast, frame_of d) \<in> set Cdata"
    by (rule map_of_SomeD)
  then obtain e where e: "interpolate_frames Cdata [] = Inl e"
    using interpolate_frames_fail i by blast
  from interpolate_frames_Inl [OF e] e b
  have "process_casts valid_casts = Inl (ValueError Arange_length)"
    by (simp add: process_casts_def)
  with m i show ?thesis by simp
qed

text \<open>Witness of C6: a mapping of two casts, the second without a jointly valid sample.\<close>

theorem C6_no_jointly_valid_aborts_witness:
  "(''Cast003'', no_valid_cast) \<in> set [(''Cast002'', gap_cast), (''Cast003'', no_valid_cast)]
   \<and> distinct (map fst [(''Cast002'', gap_cast), (''Cast003'', no_valid_cast)])
   \<and> columns_agree gap_cast \<and> columns_agree no_valid_cast
   \<and> jointly_valid (frame_of no_valid_cast) = []
   \<and> max_depth (frame_of no_valid_cast) = NaN
   \<and> process_casts [(''Cast002'', gap_cast), (''Cast003'', no_valid_cast)]
       = Inl (ValueError Arange_length)"
proof -
  have j: "jointly_valid (frame_of no_valid_cast) = []"
    by (simp add: jointly_valid_def frame_of_def no_valid_cast_def)
  have m: "(''Cast003'', no_valid_cast) \<in> set [(''Cast002'', gap_cast), (''Cast003'', no_valid_cast)]"
    by simp
  have d: "distinct (map fst [(''Cast002'', gap_cast), (''Cast003'', no_valid_cast)])"
    by simp
  have c1: "columns_agree gap_cast" and c2: "columns_agree no_valid_cast"
    by (simp_all add: columns_agree_def gap_cast_def no_valid_cast_def)
  then have c: "list_all (\<lambda>(c, d'). columns_agree d')
                  [(''Cast002'', gap_cast), (''Cast003'', no_valid_cast)]"
    by simp
  from C6_no_jointly_valid_aborts [OF m d c j] m d c1 c2 j show ?thesis by blast
qed

text \<open>
  C6 as stated fails: for the cast without a jointly valid sample \<open>max_depth\<close> is
  computed, as NaN; the cast is not dropped, for the result is not the mapping of the
  other cast; and what is raised is the exception of \<open>np.arange\<close>.
\<close>

theorem C6_not_dropped_counterexample:
  "jointly_valid (frame_of no_valid_cast) = []
   \<and> max_depth (frame_of no_valid_cast) = NaN
   \<and> process_casts [(''Cast002'', gap_cast)] = Inr [(''Cast002'', gap_interpolated)]
   \<and> process_casts [(''Cast002'', gap_cast), (''Cast003'', no_valid_cast)]
       = Inl (ValueError Arange_length)"
proof -
  have j: "jointly_valid (frame_of no_valid_cast) = []"
    by (simp add: jointly_valid_def frame_of_def no_valid_cast_def)
  have f: "zip (dr_p gap_cast) (zip (dr_u gap_cast) (dr_v gap_cast)) = gap_frame"
    by (simp add: gap_cast_def gap_frame_def)
  have g: "zip (dr_p no_valid_cast) (zip (dr_u no_valid_cast) (dr_v no_valid_cast))
           = frame_of no_valid_cast"
    by (simp add: frame_of_def)
  have b: "build_frames [(''Cast002'', gap_cast), (''Cast003'', no_valid_cast)] []
           = Inr [(''Cast002'', gap_frame), (''Cast003'', frame_of no_valid_cast)]"
    by (simp add: DataFrame_def f g) (simp add: gap_cast_def no_valid_cast_def)
  have n: "interpolate (frame_of no_valid_cast) = Inl (ValueError Arange_length)"
    using j by (simp add: interpolate_NaN max_depth_NaN)
  have "process_casts [(''Cast002'', gap_cast), (''Cast003'', no_valid_cast)]
       = Inl (ValueError Arange_length)"
    unfolding process_casts_def b by (simp add: interpolate_gap n)
  with j max_depth_NaN [OF j] process_casts_gap show ?thesis by simp
qed

subsection \<open>The renderer\<close>

lemma highlight_nonneg:
  assumes "0 \<le> ind" and "map_of valid_casts cast = Some d"
  shows "highlight df valid_casts cast st (ind, color) =
           Inr (if nat ind < length df \<and> \<not> isnan (col_u df ! nat ind)
                then draw (st\<lparr>lat_var := Some (dr_lat d), lon_var := Some (dr_lon d)\<rparr>)
                          (dr_lon d) (dr_lat d) (col_u df ! nat ind) (col_v df ! nat ind) color
                else st)"
proof -
  have "int (length df) \<le> ind \<longleftrightarrow> \<not> nat ind < length df" using assms(1) by auto
  then show ?thesis using assms by (simp add: highlight_def)
qed

lemma highlight_cases:
  assumes "highlight df vc cast st ic = Inr s1"
  shows "(drawn df ic \<and> (\<exists>d. map_of vc cast = Some d
            \<and> lon_var s1 = Some (dr_lon d) \<and> lat_var s1 = Some (dr_lat d)))
         \<or> (skipped df ic \<and> s1 = st)"
proof -
  obtain ind color where ic: "ic = (ind, color)" by (cases ic)
  show ?thesis
    using assms unfolding ic
    by (auto simp: highlight_def drawn_def skipped_def draw_def split: if_splits option.splits)
qed

lemma drawn_not_skipped: "drawn df ic \<Longrightarrow> \<not> skipped df ic"
  by (auto simp: drawn_def skipped_def)

lemma highlight_skipped: "skipped df ic \<Longrightarrow> highlight df vc cast st ic = Inr st"
  by (cases ic) (auto simp: highlight_def skipped_def)

lemma highlights_all_skipped:
  "\<forall>ic\<in>set ics. skipped df ic \<Longrightarrow> highlights df vc cast ics st = Inr st"
  by (induction ics) (simp_all add: highlight_skipped)

lemma highlights_position:
  "highlights df vc cast ics st = Inr st' \<Longrightarrow>
     (if \<exists>ic\<in>set ics. drawn df ic
      then \<exists>d. map_of vc cast = Some d
             \<and> lon_var st' = Some (dr_lon d) \<and> lat_var st' = Some (dr_lat d)
      else st' = st)"
proof (induction ics arbitrary: st)
  case Nil
  then show ?case by simp
next
  case (Cons ic ics)
  from Cons.prems obtain s1 where s1: "highlight df vc cast st ic = Inr s1"
    and rest: "highlights df vc cast ics s1 = Inr st'"
    by (auto split: sum.splits)
  note IH = Cons.IH [OF rest]
  show ?case
  proof (cases "\<exists>ic\<in>set ics. drawn df ic")
    case True
    with IH show ?thesis by auto
  next
    case False
    with IH have eq: "st' = s1" by simp
    from highlight_cases [OF s1] show ?thesis
    proof
      assume "drawn df ic \<and> (\<exists>d. map_of vc cast = Some d
            \<and> lon_var s1 = Some (dr_lon d) \<and> lat_var s1 = Some (dr_lat d))"
      then show ?thesis using eq by auto
    next
      assume "skipped df ic \<and> s1 = st"
      then show ?thesis using eq False drawn_not_skipped [of df ic] by auto
    qed
  qed
qed

lemma sorted_le_last: "sorted xs \<Longrightarrow> x \<in> set xs \<Longrightarrow> x \<le> last (xs :: nat list)"
  by (induction xs) (auto split: if_splits)

lemma last_valid_index_Inr:
  assumes "last_valid_index df = Inr i"
  shows "i < length df \<and> \<not> isnan (col_u df ! i)
         \<and> (\<forall>j. i < j \<and> j < length df \<longrightarrow> isnan (col_u df ! j))"
proof -
  define xs where "xs = filter (\<lambda>i. \<not> isnan (col_u df ! i)) [0..<length df]"
  from assms have ne: "xs \<noteq> []" and i: "i = last xs"
    by (auto simp: last_valid_index_def xs_def split: list.splits)
  have "i \<in> set xs" using ne i by simp
  then have a: "i < length df \<and> \<not> isnan (col_u df ! i)" by (simp add: xs_def)
  have s: "sorted xs" by (simp add: xs_def sorted_wrt_filter)
  have "isnan (col_u df ! j)" if "i < j" "j < length df" for j
  proof (rule ccontr)
    assume "\<not> isnan (col_u df ! j)"
    with that have "j \<in> set xs" by (simp add: xs_def)
    from sorted_le_last [OF s this] i that show False by simp
  qed
  with a show ?thesis by blast
qed

lemma last_valid_index_eq:
  assumes "i < length df" and "\<not> isnan (col_u df ! i)"
    and "\<forall>j. i < j \<and> j < length df \<longrightarrow> isnan (col_u df ! j)"
  shows "last_valid_index df = Inr i"
proof -
  define P where "P = (\<lambda>i. \<not> isnan (col_u df ! i))"
  obtain k where k: "length df = Suc i + k"
    using assms(1) by (auto simp: less_iff_Suc_add)
  have "[0..<Suc i + k] = [0..<Suc i] @ [Suc i..<Suc i + k]"
    by (rule upt_add_eq_append) simp
  then have split: "[0..<length df] = [0..<i] @ [i] @ [Suc i..<length df]"
    by (simp add: k)
  have "filter P [Suc i..<length df] = []"
    using assms(3) by (auto simp: P_def filter_empty_conv)
  moreover have "P i" using assms(2) by (simp add: P_def)
  ultimately have "filter P [0..<length df] = filter P [0..<i] @ [i]"
    by (subst split) simp
  then show ?thesis
    by (cases "filter P [0..<i]") (simp_all add: last_valid_index_def P_def)
qed

lemma last_valid_index_none:
  "\<forall>i<length df. isnan (col_u df ! i) \<Longrightarrow> last_valid_index df = Inl IndexError"
  by (simp add: last_valid_index_def filter_empty_conv [THEN iffD2])

lemma last_valid_index_some:
  assumes "\<exists>i<length df. \<not> isnan (col_u df ! i)"
  shows "\<exists>i. last_valid_index df = Inr i"
proof -
  from assms have "filter (\<lambda>i. \<not> isnan (col_u df ! i)) [0..<length df] \<noteq> []"
    by (auto simp: filter_empty_conv)
  then show ?thesis by (auto simp: last_valid_index_def split: list.splits)
qed

lemma skipped_not_drawn: "skipped df ic \<Longrightarrow> \<not> drawn df ic"
  by (auto simp: drawn_def skipped_def)

lemma highlight_Inr:
  assumes "highlight df vc cast st ic = Inr s1" and "map_of vc cast = Some d"
  shows "quivers s1 = quivers st @ highlight_vectors d df [ic] \<and> (drawn df ic \<or> skipped df ic)"
proof -
  obtain ind color where ic: "ic = (ind, color)" by (cases ic)
  show ?thesis
    using assms unfolding ic
    by (auto simp: highlight_def drawn_def skipped_def draw_def highlight_vectors_def
             split: if_splits)
qed

lemma highlights_quivers:
  "highlights df vc cast ics st = Inr st' \<Longrightarrow> map_of vc cast = Some d
   \<Longrightarrow> quivers st' = quivers st @ highlight_vectors d df ics
       \<and> list_all (\<lambda>ic. drawn df ic \<or> skipped df ic) ics"
proof (induction ics arbitrary: st)
  case Nil
  then show ?case by (simp add: highlight_vectors_def)
next
  case (Cons ic ics)
  from Cons.prems obtain s1 where s1: "highlight df vc cast st ic = Inr s1"
    and rest: "highlights df vc cast ics s1 = Inr st'"
    by (auto split: sum.splits)
  from highlight_Inr [OF s1 Cons.prems(2)] Cons.IH [OF rest Cons.prems(2)]
  show ?case by (auto simp: highlight_vectors_def)
qed

lemma plot_casts_append:
  "plot_casts (pre @ post) vc ics st =
     (case plot_casts pre vc ics st of Inl e \<Rightarrow> Inl e | Inr s \<Rightarrow> plot_casts post vc ics s)"
  by (induction pre vc ics st rule: plot_casts.induct) (auto split: sum.splits)

lemma highlight_extends:
  "highlight df vc cast st ic = Inr s1 \<Longrightarrow> \<exists>more. quivers s1 = quivers st @ more"
  by (cases ic) (auto simp: highlight_def draw_def split: if_splits option.splits)

lemma highlights_extends:
  "highlights df vc cast ics st = Inr st' \<Longrightarrow> \<exists>more. quivers st' = quivers st @ more"
proof (induction ics arbitrary: st)
  case Nil
  then show ?case by simp
next
  case (Cons ic ics)
  from Cons.prems obtain s1 where s1: "highlight df vc cast st ic = Inr s1"
    and rest: "highlights df vc cast ics s1 = Inr st'"
    by (auto split: sum.splits)
  from highlight_extends [OF s1] Cons.IH [OF rest] show ?case by auto
qed

lemma bottom_most_Inr:
  assumes "bottom_most df s2 = Inr s3"
  shows "\<exists>i lon lat. last_valid_index df = Inr i \<and> lon_var s2 = Some lon \<and> lat_var s2 = Some lat
           \<and> s3 = draw s2 lon lat (col_u df ! i) (col_v df ! i) ''black''"
  using assms by (auto simp: bottom_most_def split: sum.splits option.splits)

lemma plot_cast_Inr:
  assumes "plot_cast df vc cast ics s1 = Inr s3"
  shows "\<exists>s2 i lon lat. highlights df vc cast ics s1 = Inr s2
           \<and> last_valid_index df = Inr i \<and> lon_var s2 = Some lon \<and> lat_var s2 = Some lat
           \<and> s3 = draw s2 lon lat (col_u df ! i) (col_v df ! i) ''black''"
proof -
  from assms obtain s2 where h: "highlights df vc cast ics s1 = Inr s2"
    and b: "bottom_most df s2 = Inr s3"
    by (auto simp: plot_cast_def split: sum.splits)
  from bottom_most_Inr [OF b] h show ?thesis by blast
qed

lemma plot_casts_extends:
  "plot_casts Cd vc ics s = Inr st \<Longrightarrow> \<exists>more. quivers st = quivers s @ more"
proof (induction Cd arbitrary: s)
  case Nil
  then show ?case by simp
next
  case (Cons x Cd)
  obtain c df where x: "x = (c, df)" by (cases x)
  from Cons.prems x obtain s3 where p: "plot_cast df vc c ics s = Inr s3"
    and rest: "plot_casts Cd vc ics s3 = Inr st"
    by (auto split: sum.splits)
  from plot_cast_Inr [OF p] obtain s2 i lon lat where
    h: "highlights df vc c ics s = Inr s2"
    and s3: "s3 = draw s2 lon lat (col_u df ! i) (col_v df ! i) ''black''"
    by blast
  from highlights_extends [OF h] obtain m1 where "quivers s2 = quivers s @ m1" by blast
  then have "quivers s3 = quivers s @ m1 @ [(lon, lat, col_u df ! i, col_v df ! i, ''black'')]"
    by (simp add: s3 draw_def)
  with Cons.IH [OF rest] show ?case by auto
qed

lemma plot_adcp_data_Inr:
  assumes "plot_adcp_data Cd vc bathy indices colors = Inr (st, xlim, ylim)"
  shows "plot_casts Cd vc (zip indices colors) initial_state = Inr st"
  using assms
  by (auto simp: plot_adcp_data_def split: sum.splits if_splits)

lemma plot_casts_split:
  assumes "plot_casts (pre @ (cast, df) # post) vc ics s0 = Inr st"
  shows "\<exists>s1 s2 i lon lat rest.
           plot_casts pre vc ics s0 = Inr s1
         \<and> highlights df vc cast ics s1 = Inr s2
         \<and> last_valid_index df = Inr i \<and> lon_var s2 = Some lon \<and> lat_var s2 = Some lat
         \<and> quivers st = quivers s2 @ (lon, lat, col_u df ! i, col_v df ! i, ''black'') # rest"
proof -
  from assms obtain s1 where s1: "plot_casts pre vc ics s0 = Inr s1"
    and r: "plot_casts ((cast, df) # post) vc ics s1 = Inr st"
    by (auto simp: plot_casts_append split: sum.splits)
  from r obtain s3 where p: "plot_cast df vc cast ics s1 = Inr s3"
    and rest: "plot_casts post vc ics s3 = Inr st"
    by (auto split: sum.splits)
  from plot_cast_Inr [OF p] obtain s2 i lon lat where
    h: "highlights df vc cast ics s1 = Inr s2"
    and l: "last_valid_index df = Inr i" "lon_var s2 = Some lon" "lat_var s2 = Some lat"
    and s3: "s3 = draw s2 lon lat (col_u df ! i) (col_v df ! i) ''black''"
    by blast
  from plot_casts_extends [OF rest] obtain more where "quivers st = quivers s3 @ more" by blast
  then have "quivers st = quivers s2 @ (lon, lat, col_u df ! i, col_v df ! i, ''black'') # more"
    by (simp add: s3 draw_def)
  with s1 h l show ?thesis by blast
qed

lemma draw_vars: "lon_var (draw st lon lat u v color) = lon_var st"
  "lat_var (draw st lon lat u v color) = lat_var st"
  by (simp_all add: draw_def)

lemma plot_casts_position:
  "plot_casts pre vc ics s0 = Inr s1 \<Longrightarrow>
     (if list_ex (\<lambda>(c, df). list_ex (drawn df) ics) pre
      then \<exists>pre1 c df pre2 d. pre = pre1 @ (c, df) # pre2
             \<and> list_ex (drawn df) ics
             \<and> list_all (\<lambda>(c', df'). \<not> list_ex (drawn df') ics) pre2
             \<and> map_of vc c = Some d
             \<and> lon_var s1 = Some (dr_lon d) \<and> lat_var s1 = Some (dr_lat d)
      else lon_var s1 = lon_var s0 \<and> lat_var s1 = lat_var s0)"
proof (induction pre arbitrary: s0)
  case Nil
  then show ?case by simp
next
  case (Cons x pre)
  obtain c df where x: "x = (c, df)" by (cases x)
  from Cons.prems x obtain s3 where p: "plot_cast df vc c ics s0 = Inr s3"
    and rest: "plot_casts pre vc ics s3 = Inr s1"
    by (auto split: sum.splits)
  from plot_cast_Inr [OF p] obtain s2 i lon lat where
    h: "highlights df vc c ics s0 = Inr s2"
    and s3: "s3 = draw s2 lon lat (col_u df ! i) (col_v df ! i) ''black''"
    by blast
  have v3: "lon_var s3 = lon_var s2" "lat_var s3 = lat_var s2"
    by (simp_all add: s3 draw_vars)
  note IH = Cons.IH [OF rest]
  show ?case
  proof (cases "list_ex (\<lambda>(c, df). list_ex (drawn df) ics) pre")
    case True
    with IH obtain pre1 c' df' pre2 d where
      "pre = pre1 @ (c', df') # pre2" "list_ex (drawn df') ics"
      "list_all (\<lambda>(c', df'). \<not> list_ex (drawn df') ics) pre2" "map_of vc c' = Some d"
      "lon_var s1 = Some (dr_lon d)" "lat_var s1 = Some (dr_lat d)"
      by auto
    then have "x # pre = (x # pre1) @ (c', df') # pre2
             \<and> list_ex (drawn df') ics
             \<and> list_all (\<lambda>(c', df'). \<not> list_ex (drawn df') ics) pre2
             \<and> map_of vc c' = Some d
             \<and> lon_var s1 = Some (dr_lon d) \<and> lat_var s1 = Some (dr_lat d)"
      by simp
    then have "\<exists>pre1 c df pre2 d. x # pre = pre1 @ (c, df) # pre2
             \<and> list_ex (drawn df) ics
             \<and> list_all (\<lambda>(c', df'). \<not> list_ex (drawn df') ics) pre2
             \<and> map_of vc c = Some d
             \<and> lon_var s1 = Some (dr_lon d) \<and> lat_var s1 = Some (dr_lat d)"
      by blast
    moreover have "list_ex (\<lambda>(c, df). list_ex (drawn df) ics) (x # pre)" using True by simp
    ultimately show ?thesis by (simp only: if_True)
  next
    case False
    with IH have eq: "lon_var s1 = lon_var s2" "lat_var s1 = lat_var s2"
      using v3 by simp_all
    have none: "list_all (\<lambda>(c', df'). \<not> list_ex (drawn df') ics) pre"
      using False by (auto simp: list_all_iff list_ex_iff)
    show ?thesis
    proof (cases "list_ex (drawn df) ics")
      case d: True
      with highlights_position [OF h] obtain d' where
        "map_of vc c = Some d'" "lon_var s2 = Some (dr_lon d')" "lat_var s2 = Some (dr_lat d')"
        by (auto simp: list_ex_iff)
      with eq d none have "x # pre = [] @ (c, df) # pre
             \<and> list_ex (drawn df) ics
             \<and> list_all (\<lambda>(c', df'). \<not> list_ex (drawn df') ics) pre
             \<and> map_of vc c = Some d'
             \<and> lon_var s1 = Some (dr_lon d') \<and> lat_var s1 = Some (dr_lat d')"
        by (simp add: x)
      then have "\<exists>pre1 c df pre2 d. x # pre = pre1 @ (c, df) # pre2
             \<and> list_ex (drawn df) ics
             \<and> list_all (\<lambda>(c', df'). \<not> list_ex (drawn df') ics) pre2
             \<and> map_of vc c = Some d
             \<and> lon_var s1 = Some (dr_lon d) \<and> lat_var s1 = Some (dr_lat d)"
        by blast
      moreover have "list_ex (\<lambda>(c, df). list_ex (drawn df) ics) (x # pre)"
        using d by (simp add: x)
      ultimately show ?thesis by (simp only: if_True)
    next
      case nd: False
      with highlights_position [OF h] have "s2 = s0" by (auto simp: list_ex_iff)
      with eq have "lon_var s1 = lon_var s0 \<and> lat_var s1 = lat_var s0" by simp
      moreover have "\<not> list_ex (\<lambda>(c, df). list_ex (drawn df) ics) (x # pre)"
        using nd False by (simp add: x)
      ultimately show ?thesis by (simp only: if_False)
    qed
  qed
qed

lemma length_gap_interpolated: "length gap_interpolated = 1287"
  unfolding gap_interpolated_def by (rule length_zip_extend) simp_all

lemma col_u_gap:
  "i < 1287 \<Longrightarrow> col_u gap_interpolated ! i
     = (if i < 4 then [Fin 1, NaN, Fin 3, Fin 4] ! i else NaN)"
  by (simp add: gap_interpolated_def col_u_zip_extend)

lemma col_v_gap:
  "i < 1287 \<Longrightarrow> col_v gap_interpolated ! i
     = (if i < 4 then [Fin 5, Fin 6, Fin 7, Fin 8] ! i else NaN)"
  by (simp add: gap_interpolated_def col_v_zip_extend)

lemma last_valid_index_gap: "last_valid_index gap_interpolated = Inr 3"
proof (rule last_valid_index_eq)
  show "3 < length gap_interpolated" by (simp add: length_gap_interpolated)
  show "\<not> isnan (col_u gap_interpolated ! 3)" by (simp add: col_u_gap)
  show "\<forall>j. 3 < j \<and> j < length gap_interpolated \<longrightarrow> isnan (col_u gap_interpolated ! j)"
    by (simp add: length_gap_interpolated col_u_gap)
qed

text \<open>
  C8 (as amended). When the renderer completes, for every cast of the interpolated
  mapping that is a key of \<open>valid_casts\<close>, the vectors its index loop issues are
  exactly those of the pairs whose index is within the frame and whose \<open>u\<close> is
  present there, in the order of the pairs, each at the cast's own longitude and
  latitude with the \<open>u\<close> and \<open>v\<close> of its index; every other pair is skipped and
  adds nothing. They stand in the final list of vectors after the vectors of the
  casts before. The value of \<open>v\<close> is not looked at.
\<close>

theorem C8_vectors_of_cast:
  assumes "plot_adcp_data (pre @ (cast, df) # post) valid_casts bathy indices colors
           = Inr (st, xlim, ylim)"
    and "map_of valid_casts cast = Some d"
  shows "\<exists>s1 s2 more.
           plot_casts pre valid_casts (zip indices colors) initial_state = Inr s1
         \<and> highlights df valid_casts cast (zip indices colors) s1 = Inr s2
         \<and> quivers s2 = quivers s1 @ highlight_vectors d df (zip indices colors)
         \<and> list_all (\<lambda>ic. drawn df ic \<or> skipped df ic) (zip indices colors)
         \<and> quivers st = quivers s2 @ more"
proof -
  from plot_casts_split [OF plot_adcp_data_Inr [OF assms(1)]]
  obtain s1 s2 i lon lat rest where
    s1: "plot_casts pre valid_casts (zip indices colors) initial_state = Inr s1"
    and h: "highlights df valid_casts cast (zip indices colors) s1 = Inr s2"
    and q: "quivers st = quivers s2 @ (lon, lat, col_u df ! i, col_v df ! i, ''black'') # rest"
    by blast
  from highlights_quivers [OF h assms(2)] s1 h q show ?thesis by blast
qed

lemma highlights_gap_pairs:
  assumes "map_of vc c = Some d"
  shows "highlights gap_interpolated vc c [(0, ''red''), (1, ''blue'')] st
         = Inr (draw (st\<lparr>lat_var := Some (dr_lat d), lon_var := Some (dr_lon d)\<rparr>)
                     (dr_lon d) (dr_lat d) (Fin 1) (Fin 5) ''red'')"
proof -
  have a: "(0::int) \<le> 0" and b: "(0::int) \<le> 1" by simp_all
  have h0: "highlight gap_interpolated vc c st (0, ''red'')
            = Inr (draw (st\<lparr>lat_var := Some (dr_lat d), lon_var := Some (dr_lon d)\<rparr>)
                     (dr_lon d) (dr_lat d) (Fin 1) (Fin 5) ''red'')"
    using highlight_nonneg [OF a assms, of gap_interpolated st "''red''"]
    by (simp add: length_gap_interpolated col_u_gap col_v_gap)
  have h1: "\<And>s. highlight gap_interpolated vc c s (1, ''blue'') = Inr s"
    using highlight_nonneg [OF b assms, of gap_interpolated _ "''blue''"]
    by (simp add: length_gap_interpolated col_u_gap)
  show ?thesis by (simp add: h0 h1)
qed

lemma plot_two_casts_pairs:
  "plot_casts two_interpolated two_casts [(0, ''red''), (1, ''blue'')] initial_state
   = Inr \<lparr>quivers = [(Fin (- 114), Fin (- 21), Fin 1, Fin 5, ''red''),
                     (Fin (- 114), Fin (- 21), Fin 4, Fin 8, ''black''),
                     (Fin (- 113), Fin (- 22), Fin 1, Fin 5, ''red''),
                     (Fin (- 113), Fin (- 22), Fin 4, Fin 8, ''black'')],
          lons = [Fin (- 114), Fin (- 114), Fin (- 113), Fin (- 113)],
          lats = [Fin (- 21), Fin (- 21), Fin (- 22), Fin (- 22)],
          lat_var = Some (Fin (- 22)), lon_var = Some (Fin (- 113))\<rparr>"
proof -
  have mw: "map_of two_casts ''Cast002'' = Some gap_cast"
    and me: "map_of two_casts ''Cast003'' = Some east_cast"
    by (simp_all add: two_casts_def)
  have w: "plot_cast gap_interpolated two_casts ''Cast002'' [(0, ''red''), (1, ''blue'')]
             initial_state
     = Inr \<lparr>quivers = [(Fin (- 114), Fin (- 21), Fin 1, Fin 5, ''red''),
                       (Fin (- 114), Fin (- 21), Fin 4, Fin 8, ''black'')],
            lons = [Fin (- 114), Fin (- 114)],
            lats = [Fin (- 21), Fin (- 21)],
            lat_var = Some (Fin (- 21)), lon_var = Some (Fin (- 114))\<rparr>"
    unfolding plot_cast_def highlights_gap_pairs [OF mw]
    by (simp add: bottom_most_def last_valid_index_gap draw_def initial_state_def
          col_u_gap col_v_gap gap_cast_def)
  have e: "plot_cast gap_interpolated two_casts ''Cast003'' [(0, ''red''), (1, ''blue'')]
            \<lparr>quivers = [(Fin (- 114), Fin (- 21), Fin 1, Fin 5, ''red''),
                       (Fin (- 114), Fin (- 21), Fin 4, Fin 8, ''black'')],
            lons = [Fin (- 114), Fin (- 114)],
            lats = [Fin (- 21), Fin (- 21)],
            lat_var = Some (Fin (- 21)), lon_var = Some (Fin (- 114))\<rparr>
     = Inr \<lparr>quivers = [(Fin (- 114), Fin (- 21), Fin 1, Fin 5, ''red''),
                     (Fin (- 114), Fin (- 21), Fin 4, Fin 8, ''black''),
                     (Fin (- 113), Fin (- 22), Fin 1, Fin 5, ''red''),
                     (Fin (- 113), Fin (- 22), Fin 4, Fin 8, ''black'')],
          lons = [Fin (- 114), Fin (- 114), Fin (- 113), Fin (- 113)],
          lats = [Fin (- 21), Fin (- 21), Fin (- 22), Fin (- 22)],
          lat_var = Some (Fin (- 22)), lon_var = Some (Fin (- 113))\<rparr>"
    unfolding plot_cast_def highlights_gap_pairs [OF me]
    by (simp add: bottom_most_def last_valid_index_gap draw_def col_u_gap col_v_gap
          east_cast_def)
  show ?thesis
    unfolding two_interpolated_def plot_casts.simps w sum.case e ..
qed

lemma plot_adcp_two_casts_pairs:
  "plot_adcp_data ([(''Cast002'', gap_interpolated)] @ (''Cast003'', gap_interpolated) # [])
     two_casts (Inr [''Band1'']) [0, 1] [''red'', ''blue'']
   = Inr (\<lparr>quivers = [(Fin (- 114), Fin (- 21), Fin 1, Fin 5, ''red''),
                      (Fin (- 114), Fin (- 21), Fin 4, Fin 8, ''black''),
                      (Fin (- 113), Fin (- 22), Fin 1, Fin 5, ''red''),
                      (Fin (- 113), Fin (- 22), Fin 4, Fin 8, ''black'')],
           lons = [Fin (- 114), Fin (- 114), Fin (- 113), Fin (- 113)],
           lats = [Fin (- 21), Fin (- 21), Fin (- 22), Fin (- 22)],
           lat_var = Some (Fin (- 22)), lon_var = Some (Fin (- 113))\<rparr>,
          (Fin (- 571 / 5), Fin (- 564 / 5)), (Fin (- 111 / 5), Fin (- 104 / 5)))"
proof -
  have z: "zip [0, 1] [''red'', ''blue''] = [(0::int, ''red''), (1, ''blue'')]" by simp
  have t: "[(''Cast002'', gap_interpolated)] @ (''Cast003'', gap_interpolated) # []
           = two_interpolated"
    by (simp add: two_interpolated_def)
  show ?thesis
    unfolding plot_adcp_data_def t z plot_two_casts_pairs
    by (simp add: limits_def)
qed

text \<open>
  Witness of C8: two casts with the indices 0 and 1. For the second cast the pair of
  index 0 is drawn at its own position and the pair of index 1, where \<open>u\<close> is NaN,
  is skipped.
\<close>

theorem C8_vectors_of_cast_witness:
  "plot_adcp_data ([(''Cast002'', gap_interpolated)] @ (''Cast003'', gap_interpolated) # [])
     two_casts (Inr [''Band1'']) [0, 1] [''red'', ''blue'']
   = Inr (\<lparr>quivers = [(Fin (- 114), Fin (- 21), Fin 1, Fin 5, ''red''),
                      (Fin (- 114), Fin (- 21), Fin 4, Fin 8, ''black''),
                      (Fin (- 113), Fin (- 22), Fin 1, Fin 5, ''red''),
                      (Fin (- 113), Fin (- 22), Fin 4, Fin 8, ''black'')],
           lons = [Fin (- 114), Fin (- 114), Fin (- 113), Fin (- 113)],
           lats = [Fin (- 21), Fin (- 21), Fin (- 22), Fin (- 22)],
           lat_var = Some (Fin (- 22)), lon_var = Some (Fin (- 113))\<rparr>,
          (Fin (- 571 / 5), Fin (- 564 / 5)), (Fin (- 111 / 5), Fin (- 104 / 5)))
   \<and> map_of two_casts ''Cast003'' = Some east_cast
   \<and> highlight_vectors east_cast gap_interpolated (zip [0, 1] [''red'', ''blue''])
       = [(Fin (- 113), Fin (- 22), Fin 1, Fin 5, ''red'')]
   \<and> (\<exists>s1 s2 more.
         plot_casts [(''Cast002'', gap_interpolated)] two_casts (zip [0, 1] [''red'', ''blue''])
           initial_state = Inr s1
       \<and> highlights gap_interpolated two_casts ''Cast003'' (zip [0, 1] [''red'', ''blue'']) s1
           = Inr s2
       \<and> quivers s2 = quivers s1
           @ highlight_vectors east_cast gap_interpolated (zip [0, 1] [''red'', ''blue''])
       \<and> list_all (\<lambda>ic. drawn gap_interpolated ic \<or> skipped gap_interpolated ic)
           (zip [0, 1] [''red'', ''blue''])
       \<and> quivers
            \<lparr>quivers = [(Fin (- 114), Fin (- 21), Fin 1, Fin 5, ''red''),
                        (Fin (- 114), Fin (- 21), Fin 4, Fin 8, ''black''),
                        (Fin (- 113), Fin (- 22), Fin 1, Fin 5, ''red''),
                        (Fin (- 113), Fin (- 22), Fin 4, Fin 8, ''black'')],
             lons = [Fin (- 114), Fin (- 114), Fin (- 113), Fin (- 113)],
             lats = [Fin (- 21), Fin (- 21), Fin (- 22), Fin (- 22)],
             lat_var = Some (Fin (- 22)), lon_var = Some (Fin (- 113))\<rparr>
          = quivers s2 @ more)"
proof -
  have m: "map_of two_casts ''Cast003'' = Some east_cast" by (simp add: two_casts_def)
  have v: "highlight_vectors east_cast gap_interpolated (zip [0, 1] [''red'', ''blue''])
       = [(Fin (- 113), Fin (- 22), Fin 1, Fin 5, ''red'')]"
    by (simp add: highlight_vectors_def drawn_def length_gap_interpolated col_u_gap col_v_gap
          east_cast_def)
  from C8_vectors_of_cast [OF plot_adcp_two_casts_pairs m] plot_adcp_two_casts_pairs m v
  show ?thesis by blast
qed

text \<open>
  C8 as stated fails: at index 3 of the interpolated fractional cast \<open>v\<close> is NaN,
  and the pair is drawn all the same.
\<close>

theorem C8_missing_v_counterexample:
  "col_v fractional_interpolated ! 3 = NaN
   \<and> highlight fractional_interpolated [(''Cast002'', fractional_cast)] ''Cast002''
        initial_state (3, ''red'')
       = Inr (draw (initial_state\<lparr>lat_var := Some (Fin (- 21)), lon_var := Some (Fin (- 114))\<rparr>)
                   (Fin (- 114)) (Fin (- 21)) (Fin (7 / 3)) NaN ''red'')"
proof -
  have u: "col_u fractional_interpolated ! 3 = Fin (7 / 3)"
    by (simp add: fractional_interpolated_def col_u_zip_extend)
  have v: "col_v fractional_interpolated ! 3 = NaN"
    by (simp add: fractional_interpolated_def col_v_zip_extend)
  have m: "map_of [(''Cast002'', fractional_cast)] ''Cast002'' = Some fractional_cast" by simp
  have a: "(0::int) \<le> 3" by simp
  from highlight_nonneg [OF a m, of fractional_interpolated initial_state "''red''"] u v
  show ?thesis by (simp add: length_fractional_interpolated fractional_cast_def)
qed

text \<open>
  C9 (as amended). When the renderer completes, for every cast of the interpolated
  mapping the bottom-most vector follows the vectors of the cast's index loop and
  has the \<open>u\<close> and \<open>v\<close> of the deepest index at which \<open>u\<close> is present. Its
  position is what the index loop left in \<open>lon\<close> and \<open>lat\<close>: the cast's own
  position when at least one pair of the cast was drawn, and otherwise the position
  of the last cast before it for which a pair was drawn.
\<close>

theorem C9_bottom_most_position:
  assumes "plot_adcp_data (pre @ (cast, df) # post) valid_casts bathy indices colors
           = Inr (st, xlim, ylim)"
  shows "\<exists>s1 s2 i lon lat more.
           plot_casts pre valid_casts (zip indices colors) initial_state = Inr s1
         \<and> highlights df valid_casts cast (zip indices colors) s1 = Inr s2
         \<and> i < length df \<and> \<not> isnan (col_u df ! i)
         \<and> (\<forall>j. i < j \<and> j < length df \<longrightarrow> isnan (col_u df ! j))
         \<and> quivers st = quivers s2 @ (lon, lat, col_u df ! i, col_v df ! i, ''black'') # more
         \<and> (if list_ex (drawn df) (zip indices colors)
            then \<exists>d. map_of valid_casts cast = Some d \<and> lon = dr_lon d \<and> lat = dr_lat d
            else \<exists>pre1 c' df' pre2 d'. pre = pre1 @ (c', df') # pre2
                   \<and> list_ex (drawn df') (zip indices colors)
                   \<and> list_all (\<lambda>(c'', df''). \<not> list_ex (drawn df'') (zip indices colors)) pre2
                   \<and> map_of valid_casts c' = Some d'
                   \<and> lon = dr_lon d' \<and> lat = dr_lat d')"
proof -
  let ?ics = "zip indices colors"
  from plot_casts_split [OF plot_adcp_data_Inr [OF assms]]
  obtain s1 s2 i lon lat more where
    s1: "plot_casts pre valid_casts ?ics initial_state = Inr s1"
    and h: "highlights df valid_casts cast ?ics s1 = Inr s2"
    and l: "last_valid_index df = Inr i"
    and lo: "lon_var s2 = Some lon" and la: "lat_var s2 = Some lat"
    and q: "quivers st = quivers s2 @ (lon, lat, col_u df ! i, col_v df ! i, ''black'') # more"
    by blast
  note deep = last_valid_index_Inr [OF l]
  have pos: "if list_ex (drawn df) ?ics
            then \<exists>d. map_of valid_casts cast = Some d \<and> lon = dr_lon d \<and> lat = dr_lat d
            else \<exists>pre1 c' df' pre2 d'. pre = pre1 @ (c', df') # pre2
                   \<and> list_ex (drawn df') ?ics
                   \<and> list_all (\<lambda>(c'', df''). \<not> list_ex (drawn df'') ?ics) pre2
                   \<and> map_of valid_casts c' = Some d'
                   \<and> lon = dr_lon d' \<and> lat = dr_lat d'"
  proof (cases "list_ex (drawn df) ?ics")
    case True
    with highlights_position [OF h] lo la show ?thesis by (auto simp: list_ex_iff)
  next
    case False
    with highlights_position [OF h] have "s2 = s1" by (auto simp: list_ex_iff)
    with lo la have v: "lon_var s1 = Some lon" "lat_var s1 = Some lat" by simp_all
    have some: "list_ex (\<lambda>(c, df). list_ex (drawn df) ?ics) pre"
    proof (rule ccontr)
      assume "\<not> list_ex (\<lambda>(c, df). list_ex (drawn df) ?ics) pre"
      with plot_casts_position [OF s1] have "lon_var s1 = lon_var initial_state" by simp
      with v show False by (simp add: initial_state_def)
    qed
    with plot_casts_position [OF s1] v False show ?thesis by auto
  qed
  from s1 h deep q pos show ?thesis by blast
qed

lemma length_offset_interpolated: "length offset_interpolated = 1287"
  unfolding offset_interpolated_def by (rule length_zip_extend) simp_all

lemma col_u_offset:
  "i < 1287 \<Longrightarrow> col_u offset_interpolated ! i
     = (if i < 3 then [NaN, Fin 1, Fin 2] ! i else NaN)"
  by (simp add: offset_interpolated_def col_u_zip_extend)

lemma col_v_offset:
  "i < 1287 \<Longrightarrow> col_v offset_interpolated ! i
     = (if i < 3 then [NaN, Fin 1, Fin 2] ! i else NaN)"
  by (simp add: offset_interpolated_def col_v_zip_extend)

lemma last_valid_index_offset: "last_valid_index offset_interpolated = Inr 2"
proof (rule last_valid_index_eq)
  show "2 < length offset_interpolated" by (simp add: length_offset_interpolated)
  show "\<not> isnan (col_u offset_interpolated ! 2)" by (simp add: col_u_offset)
  show "\<forall>j. 2 < j \<and> j < length offset_interpolated \<longrightarrow> isnan (col_u offset_interpolated ! j)"
    by (simp add: length_offset_interpolated col_u_offset)
qed

lemma process_stale_casts: "process_casts stale_casts = Inr stale_interpolated"
proof -
  have f: "zip (dr_p gap_cast) (zip (dr_u gap_cast) (dr_v gap_cast)) = gap_frame"
          "zip (dr_p offset_cast) (zip (dr_u offset_cast) (dr_v offset_cast))
           = [(4, Fin 1, Fin 1), (6, Fin 2, Fin 2)]"
    by (simp_all add: gap_cast_def offset_cast_def gap_frame_def)
  have b: "build_frames stale_casts []
           = Inr [(''Cast002'', gap_frame), (''Cast003'', [(4, Fin 1, Fin 1), (6, Fin 2, Fin 2)])]"
    by (simp add: stale_casts_def DataFrame_def f) (simp add: gap_cast_def offset_cast_def)
  have m: "max_depth [(4, Fin 1, Fin 1), (6, Fin 2, Fin 2)] = Fin 6"
    by (simp add: max_depth_def jointly_valid_def last_full_depth_range)
  have a: "arange 2 (6 + 1) 2 = [2, 4, 6]"
  proof -
    have "nat \<lceil>(6 + 1 - 2) / (2::real)\<rceil> = 3" by simp
    moreover have "[0..<3] = [0, 1, 2]" by code_simp
    ultimately show ?thesis by (simp add: arange_def)
  qed
  have i: "interpolate [(4, Fin 1, Fin 1), (6, Fin 2, Fin 2)] = Inr offset_interpolated"
    unfolding interpolate_Fin [OF m] a offset_interpolated_def
    by (simp add: interp_at_def interp_index_def col_p_def col_u_def col_v_def)
  show ?thesis
    unfolding process_casts_def b by (simp add: interpolate_gap i stale_interpolated_def)
qed

lemma plot_stale_casts:
  "plot_casts stale_interpolated stale_casts [(0, ''red'')] initial_state
   = Inr \<lparr>quivers = [(Fin (- 114), Fin (- 21), Fin 1, Fin 5, ''red''),
                     (Fin (- 114), Fin (- 21), Fin 4, Fin 8, ''black''),
                     (Fin (- 114), Fin (- 21), Fin 2, Fin 2, ''black'')],
          lons = [Fin (- 114), Fin (- 114), Fin (- 114)],
          lats = [Fin (- 21), Fin (- 21), Fin (- 21)],
          lat_var = Some (Fin (- 21)), lon_var = Some (Fin (- 114))\<rparr>"
proof -
  have mw: "map_of stale_casts ''Cast002'' = Some gap_cast" by (simp add: stale_casts_def)
  have a: "(0::int) \<le> 0" by simp
  have hw: "\<And>s. highlights gap_interpolated stale_casts ''Cast002'' [(0, ''red'')] s
           = Inr (draw (s\<lparr>lat_var := Some (Fin (- 21)), lon_var := Some (Fin (- 114))\<rparr>)
                       (Fin (- 114)) (Fin (- 21)) (Fin 1) (Fin 5) ''red'')"
    using highlight_nonneg [OF a mw, of gap_interpolated _ "''red''"]
    by (simp add: length_gap_interpolated col_u_gap col_v_gap gap_cast_def)
  have sk: "skipped offset_interpolated (0, ''red'')"
    by (simp add: skipped_def length_offset_interpolated col_u_offset)
  have ho: "\<And>s. highlights offset_interpolated stale_casts ''Cast003'' [(0, ''red'')] s = Inr s"
    by (rule highlights_all_skipped) (simp add: sk)
  have w: "plot_cast gap_interpolated stale_casts ''Cast002'' [(0, ''red'')] initial_state
     = Inr \<lparr>quivers = [(Fin (- 114), Fin (- 21), Fin 1, Fin 5, ''red''),
                       (Fin (- 114), Fin (- 21), Fin 4, Fin 8, ''black'')],
            lons = [Fin (- 114), Fin (- 114)],
            lats = [Fin (- 21), Fin (- 21)],
            lat_var = Some (Fin (- 21)), lon_var = Some (Fin (- 114))\<rparr>"
    unfolding plot_cast_def hw
    by (simp add: bottom_most_def last_valid_index_gap draw_def initial_state_def
          col_u_gap col_v_gap)
  have e: "plot_cast offset_interpolated stale_casts ''Cast003'' [(0, ''red'')]
            \<lparr>quivers = [(Fin (- 114), Fin (- 21), Fin 1, Fin 5, ''red''),
                       (Fin (- 114), Fin (- 21), Fin 4, Fin 8, ''black'')],
            lons = [Fin (- 114), Fin (- 114)],
            lats = [Fin (- 21), Fin (- 21)],
            lat_var = Some (Fin (- 21)), lon_var = Some (Fin (- 114))\<rparr>
     = Inr \<lparr>quivers = [(Fin (- 114), Fin (- 21), Fin 1, Fin 5, ''red''),
                     (Fin (- 114), Fin (- 21), Fin 4, Fin 8, ''black''),
                     (Fin (- 114), Fin (- 21), Fin 2, Fin 2, ''black'')],
          lons = [Fin (- 114), Fin (- 114), Fin (- 114)],
          lats = [Fin (- 21), Fin (- 21), Fin (- 21)],
          lat_var = Some (Fin (- 21)), lon_var = Some (Fin (- 114))\<rparr>"
    unfolding plot_cast_def ho
    by (simp add: bottom_most_def last_valid_index_offset draw_def col_u_offset col_v_offset)
  show ?thesis
    unfolding stale_interpolated_def plot_casts.simps w sum.case e ..
qed

lemma plot_adcp_stale_casts:
  "plot_adcp_data ([(''Cast002'', gap_interpolated)] @ (''Cast003'', offset_interpolated) # [])
     stale_casts (Inr [''Band1'']) [0] [''red'']
   = Inr (\<lparr>quivers = [(Fin (- 114), Fin (- 21), Fin 1, Fin 5, ''red''),
                      (Fin (- 114), Fin (- 21), Fin 4, Fin 8, ''black''),
                      (Fin (- 114), Fin (- 21), Fin 2, Fin 2, ''black'')],
           lons = [Fin (- 114), Fin (- 114), Fin (- 114)],
           lats = [Fin (- 21), Fin (- 21), Fin (- 21)],
           lat_var = Some (Fin (- 21)), lon_var = Some (Fin (- 114))\<rparr>,
          (Fin (- 571 / 5), Fin (- 569 / 5)), (Fin (- 106 / 5), Fin (- 104 / 5)))"
proof -
  have z: "zip [0] [''red''] = [(0::int, ''red'')]" by simp
  have t: "[(''Cast002'', gap_interpolated)] @ (''Cast003'', offset_interpolated) # []
           = stale_interpolated"
    by (simp add: stale_interpolated_def)
  show ?thesis
    unfolding plot_adcp_data_def t z plot_stale_casts
    by (simp add: limits_def)
qed

text \<open>
  Witness of C9: for the second cast the only pair is skipped, and its bottom-most
  vector (the third vector) is at the position of the first cast, not at its own.
\<close>

theorem C9_bottom_most_position_witness:
  "process_casts stale_casts = Inr stale_interpolated
   \<and> plot_adcp_data ([(''Cast002'', gap_interpolated)] @ (''Cast003'', offset_interpolated) # [])
       stale_casts (Inr [''Band1'']) [0] [''red'']
     = Inr (\<lparr>quivers = [(Fin (- 114), Fin (- 21), Fin 1, Fin 5, ''red''),
                        (Fin (- 114), Fin (- 21), Fin 4, Fin 8, ''black''),
                        (Fin (- 114), Fin (- 21), Fin 2, Fin 2, ''black'')],
             lons = [Fin (- 114), Fin (- 114), Fin (- 114)],
             lats = [Fin (- 21), Fin (- 21), Fin (- 21)],
             lat_var = Some (Fin (- 21)), lon_var = Some (Fin (- 114))\<rparr>,
            (Fin (- 571 / 5), Fin (- 569 / 5)), (Fin (- 106 / 5), Fin (- 104 / 5)))
   \<and> skipped offset_interpolated (0, ''red'')
   \<and> map_of stale_casts ''Cast003'' = Some offset_cast
   \<and> dr_lon offset_cast = Fin (- 113) \<and> dr_lat offset_cast = Fin (- 22)
   \<and> (\<exists>s1 s2 i lon lat more.
         plot_casts [(''Cast002'', gap_interpolated)] stale_casts (zip [0] [''red''])
           initial_state = Inr s1
       \<and> highlights offset_interpolated stale_casts ''Cast003'' (zip [0] [''red'']) s1 = Inr s2
       \<and> i < length offset_interpolated \<and> \<not> isnan (col_u offset_interpolated ! i)
       \<and> (\<forall>j. i < j \<and> j < length offset_interpolated \<longrightarrow> isnan (col_u offset_interpolated ! j))
       \<and> quivers
            \<lparr>quivers = [(Fin (- 114), Fin (- 21), Fin 1, Fin 5, ''red''),
                        (Fin (- 114), Fin (- 21), Fin 4, Fin 8, ''black''),
                        (Fin (- 114), Fin (- 21), Fin 2, Fin 2, ''black'')],
             lons = [Fin (- 114), Fin (- 114), Fin (- 114)],
             lats = [Fin (- 21), Fin (- 21), Fin (- 21)],
             lat_var = Some (Fin (- 21)), lon_var = Some (Fin (- 114))\<rparr>
          = quivers s2
            @ (lon, lat, col_u offset_interpolated ! i, col_v offset_interpolated ! i, ''black'')
              # more
       \<and> (if list_ex (drawn offset_interpolated) (zip [0] [''red''])
          then \<exists>d. map_of stale_casts ''Cast003'' = Some d \<and> lon = dr_lon d \<and> lat = dr_lat d
          else \<exists>pre1 c' df' pre2 d'.
                 [(''Cast002'', gap_interpolated)] = pre1 @ (c', df') # pre2
               \<and> list_ex (drawn df') (zip [0] [''red''])
               \<and> list_all (\<lambda>(c'', df''). \<not> list_ex (drawn df'') (zip [0] [''red''])) pre2
               \<and> map_of stale_casts c' = Some d'
               \<and> lon = dr_lon d' \<and> lat = dr_lat d'))"
proof -
  have sk: "skipped offset_interpolated (0, ''red'')"
    by (simp add: skipped_def length_offset_interpolated col_u_offset)
  have m: "map_of stale_casts ''Cast003'' = Some offset_cast" by (simp add: stale_casts_def)
  have p: "dr_lon offset_cast = Fin (- 113)" "dr_lat offset_cast = Fin (- 22)"
    by (simp_all add: offset_cast_def)
  from C9_bottom_most_position [OF plot_adcp_stale_casts]
       process_stale_casts plot_adcp_stale_casts sk m p
  show ?thesis by blast
qed

lemma process_two_casts: "process_casts two_casts = Inr two_interpolated"
proof -
  have f: "zip (dr_p gap_cast) (zip (dr_u gap_cast) (dr_v gap_cast)) = gap_frame"
          "zip (dr_p east_cast) (zip (dr_u east_cast) (dr_v east_cast)) = gap_frame"
    by (simp_all add: gap_cast_def east_cast_def gap_frame_def)
  have b: "build_frames two_casts [] = Inr [(''Cast002'', gap_frame), (''Cast003'', gap_frame)]"
    by (simp add: two_casts_def DataFrame_def f) (simp add: gap_cast_def east_cast_def)
  have i: "interpolate gap_frame = Inr gap_interpolated"
    by (rule interpolate_gap)
  show ?thesis by (simp add: process_casts_def b i two_interpolated_def)
qed

lemma highlights_east_0:
  "highlights gap_interpolated two_casts ''Cast003'' [(0, ''red'')] st
   = Inr (draw (st\<lparr>lat_var := Some (Fin (- 22)), lon_var := Some (Fin (- 113))\<rparr>)
               (Fin (- 113)) (Fin (- 22)) (Fin 1) (Fin 5) ''red'')"
proof -
  have m: "map_of two_casts ''Cast003'' = Some east_cast" by (simp add: two_casts_def)
  have a: "(0::int) \<le> 0" by simp
  from highlight_nonneg [OF a m, of gap_interpolated st "''red''"]
  show ?thesis by (simp add: length_gap_interpolated col_u_gap col_v_gap east_cast_def)
qed

lemma highlights_west_0:
  "highlights gap_interpolated two_casts ''Cast002'' [(0, ''red'')] st
   = Inr (draw (st\<lparr>lat_var := Some (Fin (- 21)), lon_var := Some (Fin (- 114))\<rparr>)
               (Fin (- 114)) (Fin (- 21)) (Fin 1) (Fin 5) ''red'')"
proof -
  have m: "map_of two_casts ''Cast002'' = Some gap_cast" by (simp add: two_casts_def)
  have a: "(0::int) \<le> 0" by simp
  from highlight_nonneg [OF a m, of gap_interpolated st "''red''"]
  show ?thesis by (simp add: length_gap_interpolated col_u_gap col_v_gap gap_cast_def)
qed

lemma plot_two_casts:
  "plot_casts two_interpolated two_casts [(0, ''red'')] initial_state
   = Inr \<lparr>quivers = [(Fin (- 114), Fin (- 21), Fin 1, Fin 5, ''red''),
                     (Fin (- 114), Fin (- 21), Fin 4, Fin 8, ''black''),
                     (Fin (- 113), Fin (- 22), Fin 1, Fin 5, ''red''),
                     (Fin (- 113), Fin (- 22), Fin 4, Fin 8, ''black'')],
          lons = [Fin (- 114), Fin (- 114), Fin (- 113), Fin (- 113)],
          lats = [Fin (- 21), Fin (- 21), Fin (- 22), Fin (- 22)],
          lat_var = Some (Fin (- 22)), lon_var = Some (Fin (- 113))\<rparr>"
proof -
  have w: "plot_cast gap_interpolated two_casts ''Cast002'' [(0, ''red'')] initial_state
     = Inr \<lparr>quivers = [(Fin (- 114), Fin (- 21), Fin 1, Fin 5, ''red''),
                       (Fin (- 114), Fin (- 21), Fin 4, Fin 8, ''black'')],
            lons = [Fin (- 114), Fin (- 114)],
            lats = [Fin (- 21), Fin (- 21)],
            lat_var = Some (Fin (- 21)), lon_var = Some (Fin (- 114))\<rparr>"
    unfolding plot_cast_def highlights_west_0
    by (simp add: bottom_most_def last_valid_index_gap draw_def initial_state_def
          col_u_gap col_v_gap)
  have e: "plot_cast gap_interpolated two_casts ''Cast003'' [(0, ''red'')]
            \<lparr>quivers = [(Fin (- 114), Fin (- 21), Fin 1, Fin 5, ''red''),
                       (Fin (- 114), Fin (- 21), Fin 4, Fin 8, ''black'')],
            lons = [Fin (- 114), Fin (- 114)],
            lats = [Fin (- 21), Fin (- 21)],
            lat_var = Some (Fin (- 21)), lon_var = Some (Fin (- 114))\<rparr>
     = Inr \<lparr>quivers = [(Fin (- 114), Fin (- 21), Fin 1, Fin 5, ''red''),
                     (Fin (- 114), Fin (- 21), Fin 4, Fin 8, ''black''),
                     (Fin (- 113), Fin (- 22), Fin 1, Fin 5, ''red''),
                     (Fin (- 113), Fin (- 22), Fin 4, Fin 8, ''black'')],
          lons = [Fin (- 114), Fin (- 114), Fin (- 113), Fin (- 113)],
          lats = [Fin (- 21), Fin (- 21), Fin (- 22), Fin (- 22)],
          lat_var = Some (Fin (- 22)), lon_var = Some (Fin (- 113))\<rparr>"
    unfolding plot_cast_def highlights_east_0
    by (simp add: bottom_most_def last_valid_index_gap draw_def col_u_gap col_v_gap)
  show ?thesis
    unfolding two_interpolated_def plot_casts.simps w sum.case e ..
qed

text \<open>
  C9 as stated fails: with two casts at different positions and a pair that is drawn
  for both, the bottom-most vector of the second cast (the fourth call of
  \<open>plt.quiver\<close>) is at the second cast's own position.
\<close>

theorem C9_own_position_counterexample:
  "process_casts two_casts = Inr two_interpolated
   \<and> plot_adcp_data two_interpolated two_casts (Inr [''Band1'']) [0] [''red'']
     = Inr (\<lparr>quivers = [(Fin (- 114), Fin (- 21), Fin 1, Fin 5, ''red''),
                        (Fin (- 114), Fin (- 21), Fin 4, Fin 8, ''black''),
                        (Fin (- 113), Fin (- 22), Fin 1, Fin 5, ''red''),
                        (Fin (- 113), Fin (- 22), Fin 4, Fin 8, ''black'')],
             lons = [Fin (- 114), Fin (- 114), Fin (- 113), Fin (- 113)],
             lats = [Fin (- 21), Fin (- 21), Fin (- 22), Fin (- 22)],
             lat_var = Some (Fin (- 22)), lon_var = Some (Fin (- 113))\<rparr>,
            (Fin (- 571 / 5), Fin (- 564 / 5)), (Fin (- 111 / 5), Fin (- 104 / 5)))
   \<and> map_of two_casts ''Cast003'' = Some east_cast
   \<and> dr_lon east_cast = Fin (- 113) \<and> dr_lat east_cast = Fin (- 22)"
proof -
  have p: "plot_adcp_data two_interpolated two_casts (Inr [''Band1'']) [0] [''red'']
     = Inr (\<lparr>quivers = [(Fin (- 114), Fin (- 21), Fin 1, Fin 5, ''red''),
                        (Fin (- 114), Fin (- 21), Fin 4, Fin 8, ''black''),
                        (Fin (- 113), Fin (- 22), Fin 1, Fin 5, ''red''),
                        (Fin (- 113), Fin (- 22), Fin 4, Fin 8, ''black'')],
             lons = [Fin (- 114), Fin (- 114), Fin (- 113), Fin (- 113)],
             lats = [Fin (- 21), Fin (- 21), Fin (- 22), Fin (- 22)],
             lat_var = Some (Fin (- 22)), lon_var = Some (Fin (- 113))\<rparr>,
            (Fin (- 571 / 5), Fin (- 564 / 5)), (Fin (- 111 / 5), Fin (- 104 / 5)))"
    by (simp add: plot_adcp_data_def plot_two_casts limits_def)
  have "map_of two_casts ''Cast003'' = Some east_cast" by (simp add: two_casts_def)
  with p process_two_casts show ?thesis by (simp add: east_cast_def)
qed

text \<open>
  C10 (as amended). When the raster loads, every pair is skipped for the first cast
  and the frame of that cast has a present \<open>u\<close>, the renderer ends with
  \<open>UnboundLocalError\<close>.
\<close>

theorem C10_unbound_position:
  assumes "''Band1'' \<in> set bathy_data"
    and "\<forall>ic\<in>set (zip indices colors). skipped df ic"
    and "\<exists>i<length df. \<not> isnan (col_u df ! i)"
  shows "plot_adcp_data ((cast, df) # rest) valid_casts (Inr bathy_data) indices colors
         = Inl UnboundLocalError"
proof -
  have h: "highlights df valid_casts cast (zip indices colors) initial_state = Inr initial_state"
    using assms(2) by (rule highlights_all_skipped)
  obtain i where i: "last_valid_index df = Inr i"
    using last_valid_index_some [OF assms(3)] by blast
  have "plot_cast df valid_casts cast (zip indices colors) initial_state = Inl UnboundLocalError"
    unfolding plot_cast_def h by (simp add: bottom_most_def i initial_state_def)
  then show ?thesis using assms(1) by (simp add: plot_adcp_data_def)
qed

text \<open>
  Witness of C10: the interpolated example cast with the indices 1, where \<open>u\<close> is
  NaN, and 5000, beyond the frame.
\<close>

theorem C10_unbound_position_witness:
  "''Band1'' \<in> set [''Band1'']
   \<and> skipped gap_interpolated (1, ''red'')
   \<and> skipped gap_interpolated (5000, ''blue'')
   \<and> \<not> isnan (col_u gap_interpolated ! 0)
   \<and> plot_adcp_data [(''Cast002'', gap_interpolated)] [(''Cast002'', gap_cast)]
        (Inr [''Band1'']) [1, 5000] [''red'', ''blue'']
      = Inl UnboundLocalError"
proof -
  have b: "''Band1'' \<in> set [''Band1'']" by simp
  have s1: "skipped gap_interpolated (1, ''red'')"
    and s2: "skipped gap_interpolated (5000, ''blue'')"
    by (simp_all add: skipped_def length_gap_interpolated col_u_gap)
  then have s: "\<forall>ic\<in>set (zip [1, 5000] [''red'', ''blue'']). skipped gap_interpolated ic"
    by simp
  have n: "\<not> isnan (col_u gap_interpolated ! 0)"
    by (simp add: col_u_gap)
  then have e: "\<exists>i<length gap_interpolated. \<not> isnan (col_u gap_interpolated ! i)"
    using length_gap_interpolated by (intro exI [of _ 0]) simp
  from C10_unbound_position [OF b s e, of "''Cast002''" "[]" "[(''Cast002'', gap_cast)]"]
       b s1 s2 n
  show ?thesis by blast
qed

lemma length_shallow_interpolated: "length shallow_interpolated = 1287"
  unfolding shallow_interpolated_def by (rule length_zip_extend) simp_all

lemma col_u_shallow: "i < 1287 \<Longrightarrow> col_u shallow_interpolated ! i = NaN"
  by (auto simp: shallow_interpolated_def col_u_zip_extend less_Suc_eq)

lemma process_shallow:
  "process_casts [(''Cast002'', shallow_cast)] = Inr [(''Cast002'', shallow_interpolated)]"
proof -
  have f: "frame_of shallow_cast = [(3, Fin 1, Fin 1), (7 / 2, Fin 2, Fin 2)]"
    by (simp add: frame_of_def shallow_cast_def)
  have m: "max_depth [(3, Fin 1, Fin 1), (7 / 2, Fin 2, Fin 2)] = Fin (7 / 2)"
    by (simp add: max_depth_def jointly_valid_def last_full_depth_range)
  have a: "arange 2 (7 / 2 + 1) 2 = [2, 4]"
  proof -
    have "nat \<lceil>(7 / 2 + 1 - 2) / (2::real)\<rceil> = 2" by simp
    moreover have "[0..<2] = [0, 1]" by code_simp
    ultimately show ?thesis by (simp add: arange_def)
  qed
  have i: "interpolate [(3, Fin 1, Fin 1), (7 / 2, Fin 2, Fin 2)] = Inr shallow_interpolated"
    unfolding interpolate_Fin [OF m] a shallow_interpolated_def
    by (simp add: interp_at_def col_p_def)
  have "process_casts [(''Cast002'', shallow_cast)] =
           (case interpolate (frame_of shallow_cast) of
              Inl e \<Rightarrow> Inl e | Inr r \<Rightarrow> Inr [(''Cast002'', r)])"
    by (rule process_casts_single) (simp_all add: shallow_cast_def)
  then show ?thesis by (simp add: f i)
qed

text \<open>
  C10 as stated fails: for the shallow cast every pair is skipped, and the renderer
  ends with \<open>IndexError\<close> from line 127, before it reads \<open>lon\<close>.
\<close>

theorem C10_index_error_counterexample:
  "process_casts [(''Cast002'', shallow_cast)] = Inr [(''Cast002'', shallow_interpolated)]
   \<and> skipped shallow_interpolated (10, ''red'')
   \<and> skipped shallow_interpolated (500, ''blue'')
   \<and> skipped shallow_interpolated (1000, ''green'')
   \<and> plot_adcp_data [(''Cast002'', shallow_interpolated)] [(''Cast002'', shallow_cast)]
        (Inr [''Band1'']) [10, 500, 1000] [''red'', ''blue'', ''green'']
      = Inl IndexError"
proof -
  have s1: "skipped shallow_interpolated (10, ''red'')"
    and s2: "skipped shallow_interpolated (500, ''blue'')"
    and s3: "skipped shallow_interpolated (1000, ''green'')"
    by (simp_all add: skipped_def length_shallow_interpolated col_u_shallow)
  then have s: "\<forall>ic\<in>set (zip [10, 500, 1000] [''red'', ''blue'', ''green'']).
                  skipped shallow_interpolated ic"
    by simp
  have h: "highlights shallow_interpolated [(''Cast002'', shallow_cast)] ''Cast002''
             (zip [10, 500, 1000] [''red'', ''blue'', ''green'']) initial_state = Inr initial_state"
    using s by (rule highlights_all_skipped)
  have l: "last_valid_index shallow_interpolated = Inl IndexError"
    by (rule last_valid_index_none) (simp add: length_shallow_interpolated col_u_shallow)
  have "plot_cast shallow_interpolated [(''Cast002'', shallow_cast)] ''Cast002''
           (zip [10, 500, 1000] [''red'', ''blue'', ''green'']) initial_state = Inl IndexError"
    unfolding plot_cast_def h by (simp add: bottom_most_def l)
  then have "plot_adcp_data [(''Cast002'', shallow_interpolated)] [(''Cast002'', shallow_cast)]
        (Inr [''Band1'']) [10, 500, 1000] [''red'', ''blue'', ''green'']
      = Inl IndexError"
    by (simp add: plot_adcp_data_def del: zip_Cons_Cons)
  with process_shallow s1 s2 s3 show ?thesis by blast
qed

text \<open>
  C7 (as amended). When the raster loads and the mapping of interpolated casts is
  empty, the renderer draws nothing and ends with the \<open>ValueError\<close> of \<open>min\<close> on
  the empty list \<open>lons\<close>.
\<close>

theorem C7_empty_mapping:
  assumes "''Band1'' \<in> set bathy_data"
  shows "plot_adcp_data [] valid_casts (Inr bathy_data) indices colors = Inl (ValueError Min_empty)"
  using assms by (simp add: plot_adcp_data_def limits_def initial_state_def)

text \<open>Witness of C7: a raster with the variables Band1 and crs.\<close>

theorem C7_empty_mapping_witness:
  "''Band1'' \<in> set [''Band1'', ''crs'']
   \<and> plot_adcp_data [] [] (Inr [''Band1'', ''crs'']) [0] [''red''] = Inl (ValueError Min_empty)"
  using C7_empty_mapping [of "[''Band1'', ''crs'']" "[]" "[0]" "[''red'']"] by simp

text \<open>
  C7 as stated fails: with no retained cast the renderer raises the exception of the
  bounding-box computation on the empty list.
\<close>

theorem C7_no_data_counterexample:
  "process_casts [] = Inr []
   \<and> plot_adcp_data [] [] (Inr [''Band1'']) [10, 500, 1000] [''red'', ''blue'', ''green'']
     = Inl (ValueError Min_empty)"
  by (simp add: process_casts_def plot_adcp_data_def limits_def initial_state_def)

end
